theory Spec2Isabelle
  imports Complex_Main
begin

unbundle bit_operations_syntax

section \<open>Numbers\<close>

text \<open>
  Every numeric value of the program is a JavaScript \<^verbatim>\<open>number\<close>. The model keeps the
  three special values apart from the finite ones: \<open>PInf\<close> and \<open>NInf\<close> are
  \<^verbatim>\<open>Infinity\<close> and \<^verbatim>\<open>-Infinity\<close>, \<open>NaN\<close> is \<^verbatim>\<open>NaN\<close>, and \<open>Fin r\<close> is the finite number
  \<open>r\<close>. The operations follow the rules of the language for the special values
  (\<^verbatim>\<open>Infinity - Infinity\<close>, \<^verbatim>\<open>0 * Infinity\<close>, \<^verbatim>\<open>0 / 0\<close> and every operation on \<^verbatim>\<open>NaN\<close> give
  \<^verbatim>\<open>NaN\<close>; every comparison with \<^verbatim>\<open>NaN\<close> is false). On finite values the arithmetic is
  exact: rounding to 53 bits, overflow to an infinity and the sign of zero are not
  modelled (a division of a nonzero number by zero is taken with the zero positive).
  The general results (which points \<^verbatim>\<open>rk4\<close> returns, which segments a cell emits and
  between which corners, which samples are replaced, how segments are consumed by the
  stitcher) do not look into the arithmetic on finite values; only the examples compute
  with it.
\<close>

datatype number = Fin real | PInf | NInf | NaN

fun isFinite :: "number \<Rightarrow> bool" where
  "isFinite (Fin r) = True"
| "isFinite PInf = False"
| "isFinite NInf = False"
| "isFinite NaN = False"

fun isNaN :: "number \<Rightarrow> bool" where
  "isNaN NaN = True"
| "isNaN (Fin r) = False"
| "isNaN PInf = False"
| "isNaN NInf = False"

instantiation number :: "{plus, minus, uminus, times, inverse, abs, ord}"
begin

fun plus_number :: "number \<Rightarrow> number \<Rightarrow> number" where
  "plus_number NaN b = NaN"
| "plus_number (Fin r) NaN = NaN"
| "plus_number PInf NaN = NaN"
| "plus_number NInf NaN = NaN"
| "plus_number (Fin r) (Fin s) = Fin (r + s)"
| "plus_number (Fin r) PInf = PInf"
| "plus_number (Fin r) NInf = NInf"
| "plus_number PInf (Fin s) = PInf"
| "plus_number PInf PInf = PInf"
| "plus_number PInf NInf = NaN"
| "plus_number NInf (Fin s) = NInf"
| "plus_number NInf NInf = NInf"
| "plus_number NInf PInf = NaN"

fun uminus_number :: "number \<Rightarrow> number" where
  "uminus_number (Fin r) = Fin (- r)"
| "uminus_number PInf = NInf"
| "uminus_number NInf = PInf"
| "uminus_number NaN = NaN"

definition minus_number :: "number \<Rightarrow> number \<Rightarrow> number" where
  "minus_number a b = a + (- b)"

fun times_number :: "number \<Rightarrow> number \<Rightarrow> number" where
  "times_number NaN b = NaN"
| "times_number (Fin r) NaN = NaN"
| "times_number PInf NaN = NaN"
| "times_number NInf NaN = NaN"
| "times_number (Fin r) (Fin s) = Fin (r * s)"
| "times_number (Fin r) PInf = (if r = 0 then NaN else if 0 < r then PInf else NInf)"
| "times_number (Fin r) NInf = (if r = 0 then NaN else if 0 < r then NInf else PInf)"
| "times_number PInf (Fin s) = (if s = 0 then NaN else if 0 < s then PInf else NInf)"
| "times_number NInf (Fin s) = (if s = 0 then NaN else if 0 < s then NInf else PInf)"
| "times_number PInf PInf = PInf"
| "times_number PInf NInf = NInf"
| "times_number NInf PInf = NInf"
| "times_number NInf NInf = PInf"

fun divide_number :: "number \<Rightarrow> number \<Rightarrow> number" where
  "divide_number NaN b = NaN"
| "divide_number (Fin r) NaN = NaN"
| "divide_number PInf NaN = NaN"
| "divide_number NInf NaN = NaN"
| "divide_number (Fin r) (Fin s) =
     (if s = 0 then (if r = 0 then NaN else if 0 < r then PInf else NInf)
      else Fin (r / s))"
| "divide_number (Fin r) PInf = Fin 0"
| "divide_number (Fin r) NInf = Fin 0"
| "divide_number PInf (Fin s) = (if 0 \<le> s then PInf else NInf)"
| "divide_number NInf (Fin s) = (if 0 \<le> s then NInf else PInf)"
| "divide_number PInf PInf = NaN"
| "divide_number PInf NInf = NaN"
| "divide_number NInf PInf = NaN"
| "divide_number NInf NInf = NaN"

definition inverse_number :: "number \<Rightarrow> number" where
  "inverse_number a = divide (Fin 1) a"

fun abs_number :: "number \<Rightarrow> number" where
  "abs_number (Fin r) = Fin \<bar>r\<bar>"
| "abs_number PInf = PInf"
| "abs_number NInf = PInf"
| "abs_number NaN = NaN"

fun less_number :: "number \<Rightarrow> number \<Rightarrow> bool" where
  "less_number (Fin r) (Fin s) = (r < s)"
| "less_number (Fin r) PInf = True"
| "less_number NInf (Fin s) = True"
| "less_number NInf PInf = True"
| "less_number a b = False"

fun less_eq_number :: "number \<Rightarrow> number \<Rightarrow> bool" where
  "less_eq_number (Fin r) (Fin s) = (r \<le> s)"
| "less_eq_number (Fin r) PInf = True"
| "less_eq_number NInf (Fin s) = True"
| "less_eq_number NInf PInf = True"
| "less_eq_number PInf PInf = True"
| "less_eq_number NInf NInf = True"
| "less_eq_number a b = False"

instance ..

end

section \<open>Points, systems and rectangles\<close>

text \<open>
  \<^verbatim>\<open>Vec2 = { x: number; y: number }\<close>. The fields are called \<open>vx\<close> and \<open>vy\<close> here, so
  that \<open>x\<close> and \<open>y\<close> stay free for the local variables of the source.
\<close>

record Vec2 =
  vx :: number
  vy :: number

text \<open>
  \<^verbatim>\<open>System\<close>: the two scalar functions \<^verbatim>\<open>f\<close> and \<^verbatim>\<open>g\<close> of \<^verbatim>\<open>(x, y, params)\<close> and the parameter
  record they are called with.
\<close>

type_synonym params = "string \<rightharpoonup> number"

record System =
  sys_f :: "number \<Rightarrow> number \<Rightarrow> params \<Rightarrow> number"
  sys_g :: "number \<Rightarrow> number \<Rightarrow> params \<Rightarrow> number"
  sys_params :: params

text \<open>
  \<^verbatim>\<open>class Transform\<close> has the four fields \<^verbatim>\<open>xmin, xmax, ymin, ymax\<close>; the
  \<^verbatim>\<open>worldBounds\<close> argument of \<^verbatim>\<open>rk4\<close> is an object of the same four fields.
\<close>

record Transform =
  xmin :: number
  xmax :: number
  ymin :: number
  ymax :: number

section \<open>The integrator\<close>

text \<open>
  One pass through the body of the loop of \<^verbatim>\<open>rk4\<close>, up to the assignments to \<^verbatim>\<open>x\<close> and
  \<^verbatim>\<open>y\<close>: the four evaluations of the field and the weighted average.
\<close>

definition rk4_advance :: "System \<Rightarrow> number \<Rightarrow> number \<Rightarrow> number \<Rightarrow> number \<times> number" where
  "rk4_advance sys dt x y =
     (let f = sys_f sys; g = sys_g sys; params = sys_params sys;
          k1x = f x y params;
          k1y = g x y params;
          x2 = x + Fin (1/2) * dt * k1x;
          y2 = y + Fin (1/2) * dt * k1y;
          k2x = f x2 y2 params;
          k2y = g x2 y2 params;
          x3 = x + Fin (1/2) * dt * k2x;
          y3 = y + Fin (1/2) * dt * k2y;
          k3x = f x3 y3 params;
          k3y = g x3 y3 params;
          x4 = x + dt * k3x;
          y4 = y + dt * k3y;
          k4x = f x4 y4 params;
          k4y = g x4 y4 params
      in (x + (dt / Fin 6) * (k1x + Fin 2 * k2x + Fin 2 * k3x + k4x),
          y + (dt / Fin 6) * (k1y + Fin 2 * k2y + Fin 2 * k3y + k4y)))"

text \<open>The condition of the \<^verbatim>\<open>break\<close>, on the new \<^verbatim>\<open>x\<close> and \<^verbatim>\<open>y\<close>.\<close>

definition rk4_break :: "Transform \<Rightarrow> number \<Rightarrow> number \<Rightarrow> bool" where
  "rk4_break worldBounds x y \<longleftrightarrow>
     \<not> isFinite x \<or> \<not> isFinite y \<or>
     x < xmin worldBounds \<or> x > xmax worldBounds \<or>
     y < ymin worldBounds \<or> y > ymax worldBounds"

text \<open>
  The loop \<^verbatim>\<open>for (let i = 0; i < steps; i++)\<close>, with the number of iterations still to
  run as the first argument and the locals \<^verbatim>\<open>x\<close>, \<^verbatim>\<open>y\<close> and \<^verbatim>\<open>pts\<close> as state. \<^verbatim>\<open>steps\<close> is
  a count of iterations, a natural number.
\<close>

fun rk4_loop :: "nat \<Rightarrow> System \<Rightarrow> number \<Rightarrow> Transform \<Rightarrow> number \<Rightarrow> number \<Rightarrow> Vec2 list \<Rightarrow> Vec2 list" where
  "rk4_loop 0 sys dt worldBounds x y pts = pts"
| "rk4_loop (Suc n) sys dt worldBounds x y pts =
     (case rk4_advance sys dt x y of (x', y') \<Rightarrow>
        if rk4_break worldBounds x' y' then pts
        else rk4_loop n sys dt worldBounds x' y' (pts @ [\<lparr>vx = x', vy = y'\<rparr>]))"

definition rk4 :: "System \<Rightarrow> Vec2 \<Rightarrow> number \<Rightarrow> nat \<Rightarrow> Transform \<Rightarrow> Vec2 list" where
  "rk4 sys p0 dt steps worldBounds =
     rk4_loop steps sys dt worldBounds (vx p0) (vy p0) [p0]"

record Bidirectional =
  forward :: "Vec2 list"
  backward :: "Vec2 list"

definition integrateBidirectional ::
  "System \<Rightarrow> Vec2 \<Rightarrow> number \<Rightarrow> nat \<Rightarrow> Transform \<Rightarrow> Bidirectional" where
  "integrateBidirectional sys seed dt steps bounds =
     \<lparr>forward = rk4 sys seed dt steps bounds,
      backward = rk4 sys seed (- dt) steps bounds\<rparr>"

text \<open>
  The point that one more iteration computes from \<open>p\<close>, and the test that lets a
  computed point into \<^verbatim>\<open>pts\<close> (the negation of the \<^verbatim>\<open>break\<close> condition).
\<close>

definition rk4_next :: "System \<Rightarrow> number \<Rightarrow> Vec2 \<Rightarrow> Vec2" where
  "rk4_next sys dt p =
     (case rk4_advance sys dt (vx p) (vy p) of (x', y') \<Rightarrow> \<lparr>vx = x', vy = y'\<rparr>)"

definition rk4_accepted :: "Transform \<Rightarrow> Vec2 \<Rightarrow> bool" where
  "rk4_accepted worldBounds p \<longleftrightarrow> \<not> rk4_break worldBounds (vx p) (vy p)"

text \<open>
  The words of the specification: a point lies within \<^verbatim>\<open>worldBounds\<close>, bounds included;
  a point is finite; a point is outside \<open>[xmin, xmax] \<times> [ymin, ymax]\<close>. When a bound is
  \<^verbatim>\<open>NaN\<close> a point is neither within the bounds nor outside them.
\<close>

definition inWorldBounds :: "Transform \<Rightarrow> Vec2 \<Rightarrow> bool" where
  "inWorldBounds worldBounds p \<longleftrightarrow>
     xmin worldBounds \<le> vx p \<and> vx p \<le> xmax worldBounds \<and>
     ymin worldBounds \<le> vy p \<and> vy p \<le> ymax worldBounds"

definition finitePoint :: "Vec2 \<Rightarrow> bool" where
  "finitePoint p \<longleftrightarrow> isFinite (vx p) \<and> isFinite (vy p)"

definition outsideBounds :: "Transform \<Rightarrow> Vec2 \<Rightarrow> bool" where
  "outsideBounds worldBounds p \<longleftrightarrow>
     vx p < xmin worldBounds \<or> vx p > xmax worldBounds \<or>
     vy p < ymin worldBounds \<or> vy p > ymax worldBounds"

text \<open>
  Two inputs for the examples: a system that drifts to the left with speed one,
  \<^verbatim>\<open>{ f: () => -1, g: () => 0, params: {} }\<close>, and the square \<open>[-1, 1] \<times> [-1, 1]\<close>.
\<close>

definition drift_system :: System where
  "drift_system =
     \<lparr>sys_f = (\<lambda>x y p. Fin (- 1)), sys_g = (\<lambda>x y p. Fin 0), sys_params = Map.empty\<rparr>"

definition unit_square :: Transform where
  "unit_square = \<lparr>xmin = Fin (- 1), xmax = Fin 1, ymin = Fin (- 1), ymax = Fin 1\<rparr>"

definition at_x :: "real \<Rightarrow> Vec2" where
  "at_x r = \<lparr>vx = Fin r, vy = Fin 0\<rparr>"

subsection \<open>The sequence that \<^verbatim>\<open>rk4\<close> returns\<close>

text \<open>
  The loop appends to \<^verbatim>\<open>pts\<close> the iterates of \<open>rk4_next\<close>, from the first on, as long as
  they pass the test.
\<close>

lemma rk4_loop_takeWhile:
  "rk4_loop n sys dt wb x y pts =
     pts @ takeWhile (rk4_accepted wb)
             (map (\<lambda>k. (rk4_next sys dt ^^ Suc k) \<lparr>vx = x, vy = y\<rparr>) [0..<n])"
proof (induction n arbitrary: x y pts)
  case 0
  show ?case by simp
next
  case (Suc n)
  obtain x' y' where adv: "rk4_advance sys dt x y = (x', y')"
    by (cases "rk4_advance sys dt x y")
  have nxt: "rk4_next sys dt \<lparr>vx = x, vy = y\<rparr> = \<lparr>vx = x', vy = y'\<rparr>"
    by (simp add: rk4_next_def adv)
  show ?case
  proof (cases "rk4_break wb x' y'")
    case True
    then show ?thesis
      by (simp add: adv map_upt_Suc nxt rk4_accepted_def del: upt_Suc)
  next
    case False
    then show ?thesis
      by (simp add: adv Suc.IH map_upt_Suc nxt rk4_accepted_def funpow_swap1 del: upt_Suc)
  qed
qed

lemma rk4_takeWhile:
  "rk4 sys p0 dt steps wb =
     p0 # takeWhile (rk4_accepted wb) (map (\<lambda>k. (rk4_next sys dt ^^ Suc k) p0) [0..<steps])"
  by (cases p0) (simp add: rk4_def rk4_loop_takeWhile del: upt_Suc funpow.simps)

lemma rk4_length: "length (rk4 sys p0 dt steps wb) \<le> steps + 1"
  using length_takeWhile_le[of "rk4_accepted wb"
      "map (\<lambda>k. (rk4_next sys dt ^^ Suc k) p0) [0..<steps]"]
  by (simp add: rk4_takeWhile del: upt_Suc funpow.simps)

lemma rk4_nth:
  assumes "k < length (rk4 sys p0 dt steps wb)"
  shows "rk4 sys p0 dt steps wb ! k = (rk4_next sys dt ^^ k) p0"
proof (cases k)
  case 0
  then show ?thesis by (simp add: rk4_takeWhile del: upt_Suc)
next
  case (Suc j)
  let ?xs = "map (\<lambda>k. (rk4_next sys dt ^^ Suc k) p0) [0..<steps]"
  have j: "j < length (takeWhile (rk4_accepted wb) ?xs)"
    using assms Suc by (simp add: rk4_takeWhile del: upt_Suc funpow.simps)
  moreover have "length (takeWhile (rk4_accepted wb) ?xs) \<le> length ?xs"
    by (rule length_takeWhile_le)
  ultimately have j2: "j < steps" by simp
  have "rk4 sys p0 dt steps wb ! k = takeWhile (rk4_accepted wb) ?xs ! j"
    using Suc by (simp add: rk4_takeWhile del: upt_Suc funpow.simps)
  also have "\<dots> = ?xs ! j" using j by (rule takeWhile_nth)
  also have "\<dots> = (rk4_next sys dt ^^ Suc j) p0"
    using j2 by (simp del: upt_Suc funpow.simps)
  finally show ?thesis using Suc by simp
qed

lemma rk4_stops:
  assumes "length (rk4 sys p0 dt steps wb) \<le> steps"
  shows "\<not> rk4_accepted wb ((rk4_next sys dt ^^ length (rk4 sys p0 dt steps wb)) p0)"
proof -
  let ?xs = "map (\<lambda>k. (rk4_next sys dt ^^ Suc k) p0) [0..<steps]"
  let ?t = "takeWhile (rk4_accepted wb) ?xs"
  have len: "length (rk4 sys p0 dt steps wb) = Suc (length ?t)"
    by (simp add: rk4_takeWhile del: upt_Suc funpow.simps)
  with assms have lt: "length ?t < length ?xs" by simp
  then have "\<not> rk4_accepted wb (?xs ! length ?t)"
    by (rule nth_length_takeWhile)
  moreover have "?xs ! length ?t = (rk4_next sys dt ^^ Suc (length ?t)) p0"
    using lt by (simp del: upt_Suc funpow.simps)
  ultimately show ?thesis using len by (simp del: upt_Suc funpow.simps)
qed

lemma rk4_tail_accepted:
  "p \<in> set (tl (rk4 sys p0 dt steps wb)) \<Longrightarrow> rk4_accepted wb p"
  by (auto simp add: rk4_takeWhile simp del: upt_Suc funpow.simps dest: set_takeWhileD)

text \<open>
  When no bound is \<^verbatim>\<open>NaN\<close>, the test of the loop is the test of the specification: the
  point is finite and within the bounds, bounds included.
\<close>

lemma not_less_number: "\<not> isNaN b \<Longrightarrow> isFinite a \<Longrightarrow> (\<not> a < b) = (b \<le> a)"
  by (cases a; cases b) auto

lemma not_greater_number: "\<not> isNaN b \<Longrightarrow> isFinite a \<Longrightarrow> (\<not> b < a) = (a \<le> b)"
  by (cases a; cases b) auto

lemma le_less_number_False: "a \<le> b \<Longrightarrow> b < a \<Longrightarrow> False" for a b :: number
  by (cases a; cases b) auto

lemma rk4_accepted_iff:
  assumes "\<not> isNaN (xmin wb)" "\<not> isNaN (xmax wb)" "\<not> isNaN (ymin wb)" "\<not> isNaN (ymax wb)"
  shows "rk4_accepted wb p \<longleftrightarrow> finitePoint p \<and> inWorldBounds wb p"
proof -
  have "rk4_accepted wb p \<longleftrightarrow>
          isFinite (vx p) \<and> isFinite (vy p) \<and> \<not> vx p < xmin wb \<and> \<not> xmax wb < vx p \<and>
          \<not> vy p < ymin wb \<and> \<not> ymax wb < vy p"
    by (auto simp: rk4_accepted_def rk4_break_def)
  also have "\<dots> \<longleftrightarrow> finitePoint p \<and> inWorldBounds wb p"
    using assms
    by (auto simp: finitePoint_def inWorldBounds_def not_less_number not_greater_number
        dest: le_less_number_False)
  finally show ?thesis .
qed

lemma rk4_drift_example:
  "rk4 drift_system (at_x 2) (Fin 1) (Suc (Suc (Suc (Suc 0)))) unit_square =
     [at_x 2, at_x 1, at_x 0, at_x (- 1)]"
  by (simp add: rk4_def rk4_advance_def drift_system_def unit_square_def rk4_break_def
      at_x_def Let_def)

lemma rk4_drift_inside:
  "rk4 drift_system (at_x 1) (Fin 1) (Suc (Suc 0)) unit_square = [at_x 1, at_x 0, at_x (- 1)]"
  by (simp add: rk4_def rk4_advance_def drift_system_def unit_square_def rk4_break_def
      at_x_def Let_def)

text \<open>
  C1, as the specification states it: every point of the sequence that \<^verbatim>\<open>rk4\<close> returns
  lies within \<^verbatim>\<open>worldBounds\<close>. It fails at the start point, which is stored before the
  loop and never tested: from \<open>(2, 0)\<close>, outside the square \<open>[-1, 1] \<times> [-1, 1]\<close>, the
  returned sequence contains \<open>(2, 0)\<close>.
\<close>

theorem rk4_bounds_counterexample:
  "at_x 2 \<in> set (rk4 drift_system (at_x 2) (Fin 1) (Suc (Suc (Suc (Suc 0)))) unit_square) \<and>
   \<not> inWorldBounds unit_square (at_x 2)"
  by (simp add: rk4_drift_example) (simp add: inWorldBounds_def unit_square_def at_x_def)

text \<open>
  C1, amended: every point of the sequence after the first is finite and not outside
  \<^verbatim>\<open>worldBounds\<close>, hence within it, bounds included, when no bound is \<^verbatim>\<open>NaN\<close>; so is the
  whole sequence when the start point is; the point at index \<open>k\<close> is the \<open>k\<close>-th iterate of
  the Runge-Kutta step from the start point; and a sequence shorter than \<open>steps + 1\<close>
  stops because the next iterate is not finite or is outside the bounds, and that
  iterate is not part of the sequence.
\<close>

theorem rk4_bounds_containment:
  "(\<forall>p \<in> set (tl (rk4 sys p0 dt steps wb)). finitePoint p \<and> \<not> outsideBounds wb p) \<and>
   (\<not> isNaN (xmin wb) \<and> \<not> isNaN (xmax wb) \<and> \<not> isNaN (ymin wb) \<and> \<not> isNaN (ymax wb) \<longrightarrow>
      (\<forall>p \<in> set (tl (rk4 sys p0 dt steps wb)). inWorldBounds wb p)) \<and>
   (finitePoint p0 \<and> \<not> outsideBounds wb p0 \<longrightarrow>
      (\<forall>p \<in> set (rk4 sys p0 dt steps wb). finitePoint p \<and> \<not> outsideBounds wb p)) \<and>
   (\<forall>k < length (rk4 sys p0 dt steps wb).
      rk4 sys p0 dt steps wb ! k = (rk4_next sys dt ^^ k) p0) \<and>
   (length (rk4 sys p0 dt steps wb) \<le> steps \<longrightarrow>
      \<not> finitePoint ((rk4_next sys dt ^^ length (rk4 sys p0 dt steps wb)) p0) \<or>
      outsideBounds wb ((rk4_next sys dt ^^ length (rk4 sys p0 dt steps wb)) p0))"
proof -
  have acc: "\<And>p. rk4_accepted wb p \<longleftrightarrow> finitePoint p \<and> \<not> outsideBounds wb p"
    by (auto simp: rk4_accepted_def rk4_break_def finitePoint_def outsideBounds_def)
  have tail: "\<forall>p \<in> set (tl (rk4 sys p0 dt steps wb)). finitePoint p \<and> \<not> outsideBounds wb p"
    using rk4_tail_accepted acc by blast
  have within: "\<not> isNaN (xmin wb) \<and> \<not> isNaN (xmax wb) \<and> \<not> isNaN (ymin wb) \<and>
      \<not> isNaN (ymax wb) \<longrightarrow> (\<forall>p \<in> set (tl (rk4 sys p0 dt steps wb)). inWorldBounds wb p)"
    using rk4_tail_accepted rk4_accepted_iff by blast
  have "rk4 sys p0 dt steps wb = p0 # tl (rk4 sys p0 dt steps wb)"
    by (simp add: rk4_takeWhile del: upt_Suc funpow.simps)
  then have "set (rk4 sys p0 dt steps wb) = insert p0 (set (tl (rk4 sys p0 dt steps wb)))"
    by (metis list.simps(15))
  with tail have whole: "finitePoint p0 \<and> \<not> outsideBounds wb p0 \<longrightarrow>
      (\<forall>p \<in> set (rk4 sys p0 dt steps wb). finitePoint p \<and> \<not> outsideBounds wb p)"
    by auto
  have stop: "length (rk4 sys p0 dt steps wb) \<le> steps \<longrightarrow>
      \<not> finitePoint ((rk4_next sys dt ^^ length (rk4 sys p0 dt steps wb)) p0) \<or>
      outsideBounds wb ((rk4_next sys dt ^^ length (rk4 sys p0 dt steps wb)) p0)"
    using rk4_stops acc by blast
  show ?thesis using tail within whole stop rk4_nth by blast
qed

theorem rk4_bounds_containment_witness:
  "\<not> isNaN (xmin unit_square) \<and> \<not> isNaN (xmax unit_square) \<and>
   \<not> isNaN (ymin unit_square) \<and> \<not> isNaN (ymax unit_square) \<and>
   rk4 drift_system (at_x 2) (Fin 1) (Suc (Suc (Suc (Suc 0)))) unit_square =
     [at_x 2, at_x 1, at_x 0, at_x (- 1)] \<and>
   finitePoint (at_x 1) \<and> \<not> outsideBounds unit_square (at_x 1) \<and>
   inWorldBounds unit_square (at_x 1) \<and>
   finitePoint (at_x 0) \<and> \<not> outsideBounds unit_square (at_x 0) \<and>
   inWorldBounds unit_square (at_x 0) \<and>
   finitePoint (at_x (- 1)) \<and> \<not> outsideBounds unit_square (at_x (- 1)) \<and>
   inWorldBounds unit_square (at_x (- 1)) \<and>
   finitePoint ((rk4_next drift_system (Fin 1) ^^ 4) (at_x 2)) \<and>
   outsideBounds unit_square ((rk4_next drift_system (Fin 1) ^^ 4) (at_x 2)) \<and>
   rk4 drift_system (at_x 1) (Fin 1) (Suc (Suc 0)) unit_square = [at_x 1, at_x 0, at_x (- 1)] \<and>
   (rk4_next drift_system (Fin 1) ^^ 2) (at_x 1) = at_x (- 1)"
proof -
  let ?r = "rk4 drift_system (at_x 2) (Fin 1) (Suc (Suc (Suc (Suc 0)))) unit_square"
  let ?q = "rk4 drift_system (at_x 1) (Fin 1) (Suc (Suc 0)) unit_square"
  have nan: "\<not> isNaN (xmin unit_square) \<and> \<not> isNaN (xmax unit_square) \<and>
    \<not> isNaN (ymin unit_square) \<and> \<not> isNaN (ymax unit_square)"
    by (simp add: unit_square_def)
  note A = rk4_bounds_containment[of drift_system "at_x 2" "Fin 1"
      "Suc (Suc (Suc (Suc 0)))" unit_square]
  note B = rk4_bounds_containment[of drift_system "at_x 1" "Fin 1" "Suc (Suc 0)" unit_square]
  have tail: "\<forall>p \<in> set (tl ?r). finitePoint p \<and> \<not> outsideBounds unit_square p"
    using A by blast
  have within: "\<forall>p \<in> set (tl ?r). inWorldBounds unit_square p"
    using A nan by blast
  have "length ?r \<le> Suc (Suc (Suc (Suc 0)))" by (simp add: rk4_drift_example)
  then have stop: "\<not> finitePoint ((rk4_next drift_system (Fin 1) ^^ length ?r) (at_x 2)) \<or>
      outsideBounds unit_square ((rk4_next drift_system (Fin 1) ^^ length ?r) (at_x 2))"
    using A by blast
  have "(2::nat) < length ?q" by (simp add: rk4_drift_inside)
  then have "?q ! 2 = (rk4_next drift_system (Fin 1) ^^ 2) (at_x 1)"
    using B by blast
  then have nth: "(rk4_next drift_system (Fin 1) ^^ 2) (at_x 1) = at_x (- 1)"
    by (simp add: rk4_drift_inside)
  have len: "length ?r = 4" by (simp add: rk4_drift_example)
  have fin: "finitePoint ((rk4_next drift_system (Fin 1) ^^ 4) (at_x 2))"
    by (simp add: eval_nat_numeral rk4_next_def rk4_advance_def drift_system_def at_x_def
        finitePoint_def Let_def)
  have out: "outsideBounds unit_square ((rk4_next drift_system (Fin 1) ^^ 4) (at_x 2))"
    using stop fin unfolding len by blast
  show ?thesis
    using nan tail within fin out nth
    by (simp add: rk4_drift_example rk4_drift_inside)
qed

text \<open>
  C9: \<^verbatim>\<open>rk4\<close> does not test its start point. The sequence is never empty, it starts with
  \<open>p0\<close> whatever \<open>p0\<close> is, and it has at most \<open>steps + 1\<close> points; what follows \<open>p0\<close> are
  the iterates computed from \<open>p0\<close>, as long as each newly computed point passes the
  test, so the loop runs from a start point outside the bounds as from any other. Both
  sequences of \<^verbatim>\<open>integrateBidirectional\<close> start with the seed.
\<close>

theorem rk4_start_unvalidated:
  "rk4 sys p0 dt steps wb \<noteq> [] \<and>
   hd (rk4 sys p0 dt steps wb) = p0 \<and>
   length (rk4 sys p0 dt steps wb) \<le> steps + 1 \<and>
   rk4 sys p0 dt steps wb =
     p0 # takeWhile (rk4_accepted wb) (map (\<lambda>k. (rk4_next sys dt ^^ Suc k) p0) [0..<steps]) \<and>
   hd (forward (integrateBidirectional sys p0 dt steps wb)) = p0 \<and>
   hd (backward (integrateBidirectional sys p0 dt steps wb)) = p0"
proof -
  have "rk4 sys p0 (- dt) steps wb =
      p0 # takeWhile (rk4_accepted wb) (map (\<lambda>k. (rk4_next sys (- dt) ^^ Suc k) p0) [0..<steps])"
    by (rule rk4_takeWhile)
  then have "hd (backward (integrateBidirectional sys p0 dt steps wb)) = p0"
    by (simp add: integrateBidirectional_def del: upt_Suc funpow.simps)
  moreover have "hd (forward (integrateBidirectional sys p0 dt steps wb)) = p0"
    by (simp add: integrateBidirectional_def rk4_takeWhile del: upt_Suc funpow.simps)
  moreover have "rk4 sys p0 dt steps wb \<noteq> []" "hd (rk4 sys p0 dt steps wb) = p0"
    by (simp_all add: rk4_takeWhile del: upt_Suc funpow.simps)
  ultimately show ?thesis
    using rk4_length[of sys p0 dt steps wb] rk4_takeWhile[of sys p0 dt steps wb] by blast
qed

theorem rk4_start_unvalidated_witness:
  "rk4_break unit_square (vx (at_x 2)) (vy (at_x 2)) \<and>
   hd (rk4 drift_system (at_x 2) (Fin 1) (Suc (Suc (Suc (Suc 0)))) unit_square) = at_x 2 \<and>
   rk4 drift_system (at_x 2) (Fin 1) (Suc (Suc (Suc (Suc 0)))) unit_square =
     [at_x 2, at_x 1, at_x 0, at_x (- 1)] \<and>
   hd (forward (integrateBidirectional drift_system (at_x 2) (Fin 1)
         (Suc (Suc (Suc (Suc 0)))) unit_square)) = at_x 2 \<and>
   hd (backward (integrateBidirectional drift_system (at_x 2) (Fin 1)
         (Suc (Suc (Suc (Suc 0)))) unit_square)) = at_x 2"
  using rk4_start_unvalidated[of drift_system "at_x 2" "Fin 1" "Suc (Suc (Suc (Suc 0)))" unit_square]
  by (simp add: rk4_drift_example) (simp add: rk4_break_def unit_square_def at_x_def)

section \<open>Zero contours: marching squares\<close>

text \<open>\<^verbatim>\<open>type ScalarField = (x: number, y: number) => number\<close>.\<close>

type_synonym ScalarField = "number \<Rightarrow> number \<Rightarrow> number"

text \<open>A segment \<^verbatim>\<open>{ a: Vec2; b: Vec2 }\<close>.\<close>

record Segment =
  seg_a :: Vec2
  seg_b :: Vec2

definition lerpZero ::
  "number \<Rightarrow> number \<Rightarrow> number \<Rightarrow> number \<Rightarrow> number \<Rightarrow> number \<Rightarrow> Vec2" where
  "lerpZero x1 y1 v1 x2 y2 v2 =
     (let t = v1 / (v1 - v2)
      in \<lparr>vx = x1 + t * (x2 - x1), vy = y1 + t * (y2 - y1)\<rparr>)"

text \<open>
  The last line of the callback that fills \<^verbatim>\<open>val\<close>:
  \<^verbatim>\<open>Math.abs(v) < 1e-15 ? (v >= 0 ? 1e-15 : -1e-15) : v\<close>.
\<close>

definition nudgeZero :: "number \<Rightarrow> number" where
  "nudgeZero v =
     (if \<bar>v\<bar> < Fin (1 / 10 ^ 15)
      then (if v \<ge> Fin 0 then Fin (1 / 10 ^ 15) else - Fin (1 / 10 ^ 15))
      else v)"

text \<open>
  The table \<^verbatim>\<open>val\<close> of \<open>rows + 1\<close> rows of \<open>cols + 1\<close> samples. \<^verbatim>\<open>cols\<close> and \<^verbatim>\<open>rows\<close> are
  whole numbers (the callers pass \<^verbatim>\<open>Math.max(8, Math.floor(density))\<close>); as operands of
  the arithmetic they are the numbers \<open>Fin (real cols)\<close> and \<open>Fin (real rows)\<close>.
\<close>

definition contourVal :: "Transform \<Rightarrow> ScalarField \<Rightarrow> number \<Rightarrow> number \<Rightarrow> nat \<Rightarrow> nat \<Rightarrow> number list list" where
  "contourVal T field dx dy cols rows =
     map (\<lambda>j. map (\<lambda>i.
            let x = xmin T + Fin (real i) * dx;
                y = ymin T + Fin (real j) * dy;
                v = field x y
            in nudgeZero v) [0..<cols + 1]) [0..<rows + 1]"

text \<open>The code \<^verbatim>\<open>c\<close> of a cell, from its four corner values.\<close>

definition cellCode :: "number \<Rightarrow> number \<Rightarrow> number \<Rightarrow> number \<Rightarrow> nat" where
  "cellCode v00 v10 v11 v01 =
     (if v00 > Fin 0 then 1 else 0) OR
     push_bit 1 (if v10 > Fin 0 then 1 else 0) OR
     push_bit 2 (if v11 > Fin 0 then 1 else 0) OR
     push_bit 3 (if v01 > Fin 0 then 1 else 0)"

text \<open>The closure \<^verbatim>\<open>edgePoint\<close> of a cell, with the locals it captures as arguments.\<close>

definition edgePoint ::
  "number \<Rightarrow> number \<Rightarrow> number \<Rightarrow> number \<Rightarrow> number \<Rightarrow> number \<Rightarrow> number \<Rightarrow> number \<Rightarrow> nat \<Rightarrow> Vec2" where
  "edgePoint x0 x1 y0 y1 v00 v10 v11 v01 edge =
     (if edge = 0 then lerpZero x0 y0 v00 x0 y1 v01
      else if edge = 1 then lerpZero x0 y0 v00 x1 y0 v10
      else if edge = 2 then lerpZero x1 y0 v10 x1 y1 v11
      else if edge = 3 then lerpZero x0 y1 v01 x1 y1 v11
      else \<lparr>vx = x0, vy = y0\<rparr>)"

text \<open>
  The \<^verbatim>\<open>switch (c)\<close> of a cell: the segments it pushes, in the order it pushes them.
  \<open>ep\<close> is \<^verbatim>\<open>edgePoint\<close>.
\<close>

definition emitCell :: "nat \<Rightarrow> (nat \<Rightarrow> Vec2) \<Rightarrow> Segment list" where
  "emitCell c ep =
     (if c = 1 \<or> c = 14 then [\<lparr>seg_a = ep 0, seg_b = ep 1\<rparr>]
      else if c = 2 \<or> c = 13 then [\<lparr>seg_a = ep 1, seg_b = ep 2\<rparr>]
      else if c = 3 \<or> c = 12 then [\<lparr>seg_a = ep 0, seg_b = ep 2\<rparr>]
      else if c = 4 \<or> c = 11 then [\<lparr>seg_a = ep 2, seg_b = ep 3\<rparr>]
      else if c = 5 then [\<lparr>seg_a = ep 0, seg_b = ep 1\<rparr>, \<lparr>seg_a = ep 2, seg_b = ep 3\<rparr>]
      else if c = 6 \<or> c = 9 then [\<lparr>seg_a = ep 1, seg_b = ep 3\<rparr>]
      else if c = 7 \<or> c = 8 then [\<lparr>seg_a = ep 0, seg_b = ep 3\<rparr>]
      else if c = 10 then [\<lparr>seg_a = ep 0, seg_b = ep 2\<rparr>, \<lparr>seg_a = ep 1, seg_b = ep 3\<rparr>]
      else [])"

text \<open>The body of the two nested loops, for the cell in row \<open>j\<close> and column \<open>i\<close>.\<close>

definition contourCell ::
  "Transform \<Rightarrow> number \<Rightarrow> number \<Rightarrow> number list list \<Rightarrow> nat \<Rightarrow> nat \<Rightarrow> Segment list" where
  "contourCell T dx dy val j i =
     (let x0 = xmin T + Fin (real i) * dx;
          x1 = x0 + dx;
          y0 = ymin T + Fin (real j) * dy;
          y1 = y0 + dy;
          v00 = val ! j ! i;
          v10 = val ! j ! (i + 1);
          v11 = val ! (j + 1) ! (i + 1);
          v01 = val ! (j + 1) ! i;
          c = cellCode v00 v10 v11 v01
      in if c = 0 \<or> c = 15 then []
         else emitCell c (edgePoint x0 x1 y0 y1 v00 v10 v11 v01))"

definition zeroContourSegments :: "Transform \<Rightarrow> ScalarField \<Rightarrow> nat \<Rightarrow> nat \<Rightarrow> Segment list" where
  "zeroContourSegments T field cols rows =
     (let dx = (xmax T - xmin T) / Fin (real cols);
          dy = (ymax T - ymin T) / Fin (real rows);
          val = contourVal T field dx dy cols rows
      in concat (map (\<lambda>j. concat (map (\<lambda>i. contourCell T dx dy val j i) [0..<cols]))
                  [0..<rows]))"

subsection \<open>The specification's description of a cell\<close>

text \<open>
  The definitions of this subsection follow the words of the specification, not the
  source: the 4-bit code of a cell (bit set if the value is positive; corners in the
  order bottom-left, bottom-right, top-right, top-left), the table of segments by
  code, the edges (0 = left, 1 = bottom, 2 = right, 3 = top), and the interpolation
  \<open>t = v1 / (v1 - v2)\<close> between the two corners of an edge.
\<close>

definition cornerBit :: "number \<Rightarrow> nat" where
  "cornerBit v = (if v > Fin 0 then 1 else 0)"

definition tableCode :: "number \<Rightarrow> number \<Rightarrow> number \<Rightarrow> number \<Rightarrow> nat" where
  "tableCode v_bl v_br v_tr v_tl =
     cornerBit v_bl + 2 * cornerBit v_br + 4 * cornerBit v_tr + 8 * cornerBit v_tl"

definition emissionTable :: "nat \<Rightarrow> (nat \<times> nat) list" where
  "emissionTable c =
     (if c \<in> {0, 15} then []
      else if c \<in> {1, 14} then [(0, 1)]
      else if c \<in> {2, 13} then [(1, 2)]
      else if c \<in> {3, 12} then [(0, 2)]
      else if c \<in> {4, 11} then [(2, 3)]
      else if c \<in> {7, 8} then [(0, 3)]
      else if c \<in> {6, 9} then [(1, 3)]
      else if c = 5 then [(0, 1), (2, 3)]
      else if c = 10 then [(0, 2), (1, 3)]
      else [])"

definition interpolateZero :: "Vec2 \<times> number \<Rightarrow> Vec2 \<times> number \<Rightarrow> Vec2" where
  "interpolateZero c1 c2 =
     (case (c1, c2) of ((p1, v1), (p2, v2)) \<Rightarrow>
        let t = v1 / (v1 - v2)
        in \<lparr>vx = vx p1 + t * (vx p2 - vx p1), vy = vy p1 + t * (vy p2 - vy p1)\<rparr>)"

definition tableEdge ::
  "Vec2 \<times> number \<Rightarrow> Vec2 \<times> number \<Rightarrow> Vec2 \<times> number \<Rightarrow> Vec2 \<times> number \<Rightarrow> nat \<Rightarrow> Vec2" where
  "tableEdge c_bl c_br c_tr c_tl e =
     (if e = 0 then interpolateZero c_bl c_tl
      else if e = 1 then interpolateZero c_bl c_br
      else if e = 2 then interpolateZero c_br c_tr
      else interpolateZero c_tl c_tr)"

definition cornerValue :: "Transform \<Rightarrow> ScalarField \<Rightarrow> nat \<Rightarrow> nat \<Rightarrow> nat \<Rightarrow> nat \<Rightarrow> number" where
  "cornerValue T field cols rows i j =
     nudgeZero (field (xmin T + Fin (real i) * ((xmax T - xmin T) / Fin (real cols)))
                      (ymin T + Fin (real j) * ((ymax T - ymin T) / Fin (real rows))))"

definition tableCell :: "Transform \<Rightarrow> ScalarField \<Rightarrow> nat \<Rightarrow> nat \<Rightarrow> nat \<Rightarrow> nat \<Rightarrow> Segment list" where
  "tableCell T field cols rows j i =
     (let dx = (xmax T - xmin T) / Fin (real cols);
          dy = (ymax T - ymin T) / Fin (real rows);
          x0 = xmin T + Fin (real i) * dx;
          y0 = ymin T + Fin (real j) * dy;
          c_bl = (\<lparr>vx = x0, vy = y0\<rparr>, cornerValue T field cols rows i j);
          c_br = (\<lparr>vx = x0 + dx, vy = y0\<rparr>, cornerValue T field cols rows (i + 1) j);
          c_tr = (\<lparr>vx = x0 + dx, vy = y0 + dy\<rparr>, cornerValue T field cols rows (i + 1) (j + 1));
          c_tl = (\<lparr>vx = x0, vy = y0 + dy\<rparr>, cornerValue T field cols rows i (j + 1))
      in map (\<lambda>(e1, e2). \<lparr>seg_a = tableEdge c_bl c_br c_tr c_tl e1,
                         seg_b = tableEdge c_bl c_br c_tr c_tl e2\<rparr>)
           (emissionTable (tableCode (snd c_bl) (snd c_br) (snd c_tr) (snd c_tl))))"


text \<open>
  Two fields for the examples: \<^verbatim>\<open>(x, y) => x\<close>, and a field that is \<^verbatim>\<open>NaN\<close> left of the
  \<open>y\<close> axis and 1 elsewhere, as \<^verbatim>\<open>(x, y) => Math.sqrt(x) * 0 + 1\<close> is.
\<close>

definition x_field :: ScalarField where
  "x_field x y = x"

definition nan_left_field :: ScalarField where
  "nan_left_field x y = (if x < Fin 0 then NaN else Fin 1)"

text \<open>A point lies within the sampled rectangle, bounds included.\<close>

definition insideRect :: "Transform \<Rightarrow> Vec2 \<Rightarrow> bool" where
  "insideRect T p \<longleftrightarrow> xmin T \<le> vx p \<and> vx p \<le> xmax T \<and> ymin T \<le> vy p \<and> vy p \<le> ymax T"

text \<open>
  The four corners of the cell in row \<open>j\<close> and column \<open>i\<close>, bottom-left, bottom-right,
  top-right, top-left: the position that the loop body computes for the corner
  (\<^verbatim>\<open>x0\<close> or \<^verbatim>\<open>x1 = x0 + dx\<close>, \<^verbatim>\<open>y0\<close> or \<^verbatim>\<open>y1 = y0 + dy\<close>) and the adjusted sample that
  \<^verbatim>\<open>val\<close> holds for it.
\<close>

definition cellCorners ::
  "Transform \<Rightarrow> ScalarField \<Rightarrow> nat \<Rightarrow> nat \<Rightarrow> nat \<Rightarrow> nat \<Rightarrow>
   (Vec2 \<times> number) \<times> (Vec2 \<times> number) \<times> (Vec2 \<times> number) \<times> (Vec2 \<times> number)" where
  "cellCorners T field cols rows j i =
     (let dx = (xmax T - xmin T) / Fin (real cols);
          dy = (ymax T - ymin T) / Fin (real rows);
          x0 = xmin T + Fin (real i) * dx;
          y0 = ymin T + Fin (real j) * dy
      in ((\<lparr>vx = x0, vy = y0\<rparr>, cornerValue T field cols rows i j),
          (\<lparr>vx = x0 + dx, vy = y0\<rparr>, cornerValue T field cols rows (i + 1) j),
          (\<lparr>vx = x0 + dx, vy = y0 + dy\<rparr>, cornerValue T field cols rows (i + 1) (j + 1)),
          (\<lparr>vx = x0, vy = y0 + dy\<rparr>, cornerValue T field cols rows i (j + 1))))"

text \<open>
  The two corners of an edge (0 = left, 1 = bottom, 2 = right, 3 = top), in the order in
  which the edge interpolates them; and the two corners of an edge of a cell.
\<close>

definition edgeEnds ::
  "Vec2 \<times> number \<Rightarrow> Vec2 \<times> number \<Rightarrow> Vec2 \<times> number \<Rightarrow> Vec2 \<times> number \<Rightarrow> nat \<Rightarrow>
   (Vec2 \<times> number) \<times> (Vec2 \<times> number)" where
  "edgeEnds c_bl c_br c_tr c_tl e =
     (if e = 0 then (c_bl, c_tl)
      else if e = 1 then (c_bl, c_br)
      else if e = 2 then (c_br, c_tr)
      else (c_tl, c_tr))"

definition cellEdge ::
  "Transform \<Rightarrow> ScalarField \<Rightarrow> nat \<Rightarrow> nat \<Rightarrow> nat \<Rightarrow> nat \<Rightarrow> nat \<Rightarrow>
   (Vec2 \<times> number) \<times> (Vec2 \<times> number)" where
  "cellEdge T field cols rows j i e =
     (case cellCorners T field cols rows j i of
        (c_bl, c_br, c_tr, c_tl) \<Rightarrow> edgeEnds c_bl c_br c_tr c_tl e)"

text \<open>
  Two values of opposite sign, as far as the comparison \<^verbatim>\<open>v > 0\<close> of the source can
  tell: one is positive, the other is negative or \<^verbatim>\<open>NaN\<close>.
\<close>

definition signChange :: "number \<Rightarrow> number \<Rightarrow> bool" where
  "signChange v1 v2 \<longleftrightarrow>
     Fin 0 < v1 \<and> (v2 < Fin 0 \<or> isNaN v2) \<or> (v1 < Fin 0 \<or> isNaN v1) \<and> Fin 0 < v2"

subsection \<open>The source refines the table\<close>

lemma cellCode_tableCode: "cellCode v00 v10 v11 v01 = tableCode v00 v10 v11 v01"
  by (simp add: cellCode_def tableCode_def cornerBit_def)

lemma edgePoint_tableEdge:
  "e < 4 \<Longrightarrow> edgePoint x0 x1 y0 y1 v00 v10 v11 v01 e =
     tableEdge (\<lparr>vx = x0, vy = y0\<rparr>, v00) (\<lparr>vx = x1, vy = y0\<rparr>, v10)
               (\<lparr>vx = x1, vy = y1\<rparr>, v11) (\<lparr>vx = x0, vy = y1\<rparr>, v01) e"
  by (auto simp: edgePoint_def tableEdge_def interpolateZero_def lerpZero_def)

lemma tableCode_less: "tableCode a b c d < 16"
  by (simp add: tableCode_def cornerBit_def)

lemma emit_table:
  "c < 16 \<Longrightarrow> (if c = 0 \<or> c = 15 then [] else emitCell c ep) =
     map (\<lambda>(e1, e2). \<lparr>seg_a = ep e1, seg_b = ep e2\<rparr>) (emissionTable c)"
  by (simp add: emitCell_def emissionTable_def)

lemma emissionTable_edges: "(e1, e2) \<in> set (emissionTable c) \<Longrightarrow> e1 < 4 \<and> e2 < 4"
  by (auto simp: emissionTable_def split: if_splits)


lemma contourVal_sample:
  "j \<le> rows \<Longrightarrow> i \<le> cols \<Longrightarrow>
   contourVal T field dx dy cols rows ! j ! i =
     nudgeZero (field (xmin T + Fin (real i) * dx) (ymin T + Fin (real j) * dy))"
  by (simp add: contourVal_def Let_def del: upt_Suc)

lemma contourVal_nth:
  "j \<le> rows \<Longrightarrow> i \<le> cols \<Longrightarrow>
   contourVal T field ((xmax T - xmin T) / Fin (real cols)) ((ymax T - ymin T) / Fin (real rows))
     cols rows ! j ! i = cornerValue T field cols rows i j"
  by (simp add: contourVal_sample cornerValue_def)

lemma contourCell_table:
  assumes "j < rows" "i < cols"
  shows "contourCell T ((xmax T - xmin T) / Fin (real cols)) ((ymax T - ymin T) / Fin (real rows))
           (contourVal T field ((xmax T - xmin T) / Fin (real cols))
              ((ymax T - ymin T) / Fin (real rows)) cols rows) j i =
         tableCell T field cols rows j i"
proof -
  let ?dx = "(xmax T - xmin T) / Fin (real cols)"
  let ?dy = "(ymax T - ymin T) / Fin (real rows)"
  let ?val = "contourVal T field ?dx ?dy cols rows"
  have v: "?val ! j ! i = cornerValue T field cols rows i j"
    "?val ! j ! (i + 1) = cornerValue T field cols rows (i + 1) j"
    "?val ! (j + 1) ! (i + 1) = cornerValue T field cols rows (i + 1) (j + 1)"
    "?val ! (j + 1) ! i = cornerValue T field cols rows i (j + 1)"
    using assms by (simp_all only: contourVal_nth less_imp_le Suc_leI Suc_eq_plus1[symmetric])
  have m: "map (\<lambda>(e1, e2). \<lparr>seg_a = edgePoint x0 x1 y0 y1 a b c d e1,
                              seg_b = edgePoint x0 x1 y0 y1 a b c d e2\<rparr>) (emissionTable k) =
           map (\<lambda>(e1, e2). \<lparr>seg_a = tableEdge (\<lparr>vx = x0, vy = y0\<rparr>, a) (\<lparr>vx = x1, vy = y0\<rparr>, b)
                                        (\<lparr>vx = x1, vy = y1\<rparr>, c) (\<lparr>vx = x0, vy = y1\<rparr>, d) e1,
                              seg_b = tableEdge (\<lparr>vx = x0, vy = y0\<rparr>, a) (\<lparr>vx = x1, vy = y0\<rparr>, b)
                                        (\<lparr>vx = x1, vy = y1\<rparr>, c) (\<lparr>vx = x0, vy = y1\<rparr>, d) e2\<rparr>)
             (emissionTable k)" for x0 x1 y0 y1 a b c d k
    by (rule map_cong) (auto dest!: emissionTable_edges simp: edgePoint_tableEdge)
  show ?thesis
    unfolding contourCell_def tableCell_def Let_def v cellCode_tableCode
    by (simp only: emit_table[OF tableCode_less] m snd_conv)
qed

lemma zeroContourSegments_cells:
  "zeroContourSegments T field cols rows =
     concat (map (\<lambda>j. concat (map (\<lambda>i. tableCell T field cols rows j i) [0..<cols])) [0..<rows])"
  unfolding zeroContourSegments_def Let_def
  by (auto intro!: arg_cong[where f=concat] map_cong simp: contourCell_table)



subsection \<open>Samples close to zero\<close>

lemma nudge1: "\<bar>v\<bar> < Fin (1 / 10 ^ 15) \<Longrightarrow> Fin 0 \<le> v \<Longrightarrow> nudgeZero v = Fin (1 / 10 ^ 15)"
  by (simp add: nudgeZero_def)

lemma nudge2: "\<bar>v\<bar> < Fin (1 / 10 ^ 15) \<Longrightarrow> v < Fin 0 \<Longrightarrow> nudgeZero v = Fin (- (1 / 10 ^ 15))"
  by (cases v) (auto simp: nudgeZero_def)

lemma nudge3: "nudgeZero (Fin 0) = Fin (1 / 10 ^ 15)"
  by (simp add: nudgeZero_def)

lemma nudge4: "Fin (1 / 10 ^ 15) \<le> \<bar>v\<bar> \<Longrightarrow> nudgeZero v = v"
  by (cases v) (auto simp: nudgeZero_def)


subsection \<open>Where the end points of the segments lie\<close>

lemma tableEdge_edgeEnds:
  "tableEdge c_bl c_br c_tr c_tl e =
     interpolateZero (fst (edgeEnds c_bl c_br c_tr c_tl e)) (snd (edgeEnds c_bl c_br c_tr c_tl e))"
  by (simp add: tableEdge_def edgeEnds_def)

lemma emissionTable_crossing:
  assumes "(e1, e2) \<in> set (emissionTable (tableCode (snd c_bl) (snd c_br) (snd c_tr) (snd c_tl)))"
    and "e = e1 \<or> e = e2"
  shows "cornerBit (snd (fst (edgeEnds c_bl c_br c_tr c_tl e))) \<noteq>
         cornerBit (snd (snd (edgeEnds c_bl c_br c_tr c_tl e)))"
proof -
  have bits: "cornerBit v = 0 \<or> cornerBit v = 1" for v
    by (simp add: cornerBit_def)
  show ?thesis
    using assms bits[of "snd c_bl"] bits[of "snd c_br"] bits[of "snd c_tr"] bits[of "snd c_tl"]
    by (auto simp: tableCode_def emissionTable_def edgeEnds_def)
qed

lemma nudgeZero_signed: "Fin 0 < nudgeZero v \<or> nudgeZero v < Fin 0 \<or> isNaN (nudgeZero v)"
  by (cases v) (auto simp: nudgeZero_def)

lemma cornerBit_signChange:
  assumes "cornerBit (nudgeZero a) \<noteq> cornerBit (nudgeZero b)"
  shows "signChange (nudgeZero a) (nudgeZero b)"
  using assms nudgeZero_signed[of a] nudgeZero_signed[of b]
  by (auto simp: cornerBit_def signChange_def split: if_splits)

lemma edgeEnds_nudged:
  assumes "\<exists>w. snd c_bl = nudgeZero w" "\<exists>w. snd c_br = nudgeZero w"
    "\<exists>w. snd c_tr = nudgeZero w" "\<exists>w. snd c_tl = nudgeZero w"
  shows "\<exists>w. snd (fst (edgeEnds c_bl c_br c_tr c_tl e)) = nudgeZero w"
    and "\<exists>w. snd (snd (edgeEnds c_bl c_br c_tr c_tl e)) = nudgeZero w"
  using assms by (simp_all add: edgeEnds_def)

lemma cornerValue_nudged: "\<exists>w. cornerValue T field cols rows i j = nudgeZero w"
  unfolding cornerValue_def by blast

lemma tableCell_endpoint:
  assumes s: "s \<in> set (tableCell T field cols rows j i)"
    and p: "p = seg_a s \<or> p = seg_b s"
  shows "\<exists>e. e < 4 \<and>
           p = interpolateZero (fst (cellEdge T field cols rows j i e))
                               (snd (cellEdge T field cols rows j i e)) \<and>
           signChange (snd (fst (cellEdge T field cols rows j i e)))
                      (snd (snd (cellEdge T field cols rows j i e)))"
proof -
  let ?dx = "(xmax T - xmin T) / Fin (real cols)"
  let ?dy = "(ymax T - ymin T) / Fin (real rows)"
  let ?x0 = "xmin T + Fin (real i) * ?dx"
  let ?y0 = "ymin T + Fin (real j) * ?dy"
  let ?bl = "(\<lparr>vx = ?x0, vy = ?y0\<rparr>, cornerValue T field cols rows i j)"
  let ?br = "(\<lparr>vx = ?x0 + ?dx, vy = ?y0\<rparr>, cornerValue T field cols rows (i + 1) j)"
  let ?tr = "(\<lparr>vx = ?x0 + ?dx, vy = ?y0 + ?dy\<rparr>, cornerValue T field cols rows (i + 1) (j + 1))"
  let ?tl = "(\<lparr>vx = ?x0, vy = ?y0 + ?dy\<rparr>, cornerValue T field cols rows i (j + 1))"
  have ce: "cellEdge T field cols rows j i e = edgeEnds ?bl ?br ?tr ?tl e" for e
    by (simp add: cellEdge_def cellCorners_def Let_def)
  from s obtain e1 e2 where
    e: "(e1, e2) \<in> set (emissionTable (tableCode (snd ?bl) (snd ?br) (snd ?tr) (snd ?tl)))"
    and s_eq: "s = \<lparr>seg_a = tableEdge ?bl ?br ?tr ?tl e1, seg_b = tableEdge ?bl ?br ?tr ?tl e2\<rparr>"
    unfolding tableCell_def Let_def by auto
  from p s_eq obtain e where ee: "e = e1 \<or> e = e2" and p_eq: "p = tableEdge ?bl ?br ?tr ?tl e"
    by auto
  have lt: "e < 4" using emissionTable_edges[OF e] ee by auto
  have n: "\<exists>w. snd ?bl = nudgeZero w" "\<exists>w. snd ?br = nudgeZero w"
    "\<exists>w. snd ?tr = nudgeZero w" "\<exists>w. snd ?tl = nudgeZero w"
    by (simp_all add: cornerValue_nudged)
  obtain a b where ab: "snd (fst (edgeEnds ?bl ?br ?tr ?tl e)) = nudgeZero a"
    "snd (snd (edgeEnds ?bl ?br ?tr ?tl e)) = nudgeZero b"
    using edgeEnds_nudged[OF n, of e] by blast
  have "signChange (snd (fst (edgeEnds ?bl ?br ?tr ?tl e))) (snd (snd (edgeEnds ?bl ?br ?tr ?tl e)))"
    using emissionTable_crossing[OF e ee] unfolding ab by (rule cornerBit_signChange)
  then show ?thesis
    using lt p_eq unfolding ce tableEdge_edgeEnds by blast
qed

text \<open>
  C4: the segments that \<^verbatim>\<open>zeroContourSegments\<close> returns are, cell after cell (rows from
  the bottom, columns from the left within a row), the segments that the table of the
  specification gives for the 4-bit code of the cell's adjusted corner values: none
  for the codes 0 and 15; (edge 0, edge 1) for 1 and 14; (edge 1, edge 2) for 2 and 13;
  (edge 0, edge 2) for 3 and 12; (edge 2, edge 3) for 4 and 11; (edge 0, edge 3) for 7
  and 8; (edge 1, edge 3) for 6 and 9; (edge 0, edge 1) then (edge 2, edge 3) for 5;
  (edge 0, edge 2) then (edge 1, edge 3) for 10. Each edge point is the interpolation
  with \<open>t = v1 / (v1 - v2)\<close> between the two corners of the edge.
\<close>

theorem zeroContourSegments_table:
  "zeroContourSegments T field cols rows =
     concat (map (\<lambda>j. concat (map (\<lambda>i. tableCell T field cols rows j i) [0..<cols])) [0..<rows])"
  by (rule zeroContourSegments_cells)

lemma x_field_example:
  "zeroContourSegments unit_square x_field (Suc 0) (Suc 0) =
     [\<lparr>seg_a = \<lparr>vx = Fin 0, vy = Fin (- 1)\<rparr>, seg_b = \<lparr>vx = Fin 0, vy = Fin 1\<rparr>\<rparr>]"
  by (simp add: zeroContourSegments_def contourVal_def contourCell_def unit_square_def
      x_field_def nudgeZero_def cellCode_def emitCell_def edgePoint_def lerpZero_def Let_def
      minus_number_def)

theorem zeroContourSegments_table_witness:
  "tableCell unit_square x_field (Suc 0) (Suc 0) 0 0 =
     [\<lparr>seg_a = \<lparr>vx = Fin 0, vy = Fin (- 1)\<rparr>, seg_b = \<lparr>vx = Fin 0, vy = Fin 1\<rparr>\<rparr>]"
  using zeroContourSegments_table[of unit_square x_field "Suc 0" "Suc 0"]
  by (simp add: x_field_example)

text \<open>
  C6: a sample of magnitude below \<open>1e-15\<close> becomes \<open>1e-15\<close> when it is zero or positive
  and \<open>-1e-15\<close> when it is negative; a sample of magnitude at least \<open>1e-15\<close> is kept;
  and the code of a cell and its edge points are computed from the samples after this
  replacement.
\<close>

theorem nudgeZero_degenerate:
  "(\<bar>v\<bar> < Fin (1 / 10 ^ 15) \<and> Fin 0 \<le> v \<longrightarrow> nudgeZero v = Fin (1 / 10 ^ 15)) \<and>
   (\<bar>v\<bar> < Fin (1 / 10 ^ 15) \<and> v < Fin 0 \<longrightarrow> nudgeZero v = Fin (- (1 / 10 ^ 15))) \<and>
   nudgeZero (Fin 0) = Fin (1 / 10 ^ 15) \<and>
   (Fin (1 / 10 ^ 15) \<le> \<bar>v\<bar> \<longrightarrow> nudgeZero v = v) \<and>
   (j < rows \<and> i < cols \<longrightarrow>
      contourCell T dx dy (contourVal T field dx dy cols rows) j i =
        (let x0 = xmin T + Fin (real i) * dx;
             x1 = x0 + dx;
             y0 = ymin T + Fin (real j) * dy;
             y1 = y0 + dy;
             v00 = nudgeZero (field x0 y0);
             v10 = nudgeZero (field (xmin T + Fin (real (i + 1)) * dx) y0);
             v11 = nudgeZero (field (xmin T + Fin (real (i + 1)) * dx)
                                    (ymin T + Fin (real (j + 1)) * dy));
             v01 = nudgeZero (field x0 (ymin T + Fin (real (j + 1)) * dy));
             c = cellCode v00 v10 v11 v01
         in if c = 0 \<or> c = 15 then []
            else emitCell c (edgePoint x0 x1 y0 y1 v00 v10 v11 v01)))"
proof -
  have cell: "contourCell T dx dy (contourVal T field dx dy cols rows) j i =
        (let x0 = xmin T + Fin (real i) * dx;
             x1 = x0 + dx;
             y0 = ymin T + Fin (real j) * dy;
             y1 = y0 + dy;
             v00 = nudgeZero (field x0 y0);
             v10 = nudgeZero (field (xmin T + Fin (real (i + 1)) * dx) y0);
             v11 = nudgeZero (field (xmin T + Fin (real (i + 1)) * dx)
                                    (ymin T + Fin (real (j + 1)) * dy));
             v01 = nudgeZero (field x0 (ymin T + Fin (real (j + 1)) * dy));
             c = cellCode v00 v10 v11 v01
         in if c = 0 \<or> c = 15 then []
            else emitCell c (edgePoint x0 x1 y0 y1 v00 v10 v11 v01))"
    if "j < rows" "i < cols"
  proof -
    have le: "j \<le> rows" "j + 1 \<le> rows" "i \<le> cols" "i + 1 \<le> cols" using that by simp_all
    show ?thesis
      unfolding contourCell_def Let_def
        contourVal_sample[OF le(1) le(3)] contourVal_sample[OF le(1) le(4)]
        contourVal_sample[OF le(2) le(4)] contourVal_sample[OF le(2) le(3)]
      by (rule refl)
  qed
  show ?thesis
    using nudge1[of v] nudge2[of v] nudge3 nudge4[of v] cell by blast
qed

theorem nudgeZero_degenerate_witness:
  "\<bar>Fin (1 / 10 ^ 16)\<bar> < Fin (1 / 10 ^ 15) \<and> Fin 0 \<le> Fin (1 / 10 ^ 16) \<and>
   nudgeZero (Fin (1 / 10 ^ 16)) = Fin (1 / 10 ^ 15) \<and>
   \<bar>Fin (- (1 / 10 ^ 16))\<bar> < Fin (1 / 10 ^ 15) \<and> Fin (- (1 / 10 ^ 16)) < Fin 0 \<and>
   nudgeZero (Fin (- (1 / 10 ^ 16))) = Fin (- (1 / 10 ^ 15)) \<and>
   Fin (1 / 10 ^ 15) \<le> \<bar>Fin (- 3)\<bar> \<and> nudgeZero (Fin (- 3)) = Fin (- 3) \<and>
   (0::nat) < Suc 0 \<and>
   contourCell unit_square (Fin 2) (Fin 2)
     (contourVal unit_square x_field (Fin 2) (Fin 2) (Suc 0) (Suc 0)) 0 0 =
     [\<lparr>seg_a = \<lparr>vx = Fin 0, vy = Fin (- 1)\<rparr>, seg_b = \<lparr>vx = Fin 0, vy = Fin 1\<rparr>\<rparr>]"
  using nudgeZero_degenerate[of "Fin (1 / 10 ^ 16)" 0 "Suc 0" 0 "Suc 0" unit_square "Fin 2" "Fin 2" x_field]
    nudgeZero_degenerate[of "Fin (- (1 / 10 ^ 16))" 0 "Suc 0" 0 "Suc 0" unit_square "Fin 2" "Fin 2" x_field]
    nudgeZero_degenerate[of "Fin (- 3)" 0 "Suc 0" 0 "Suc 0" unit_square "Fin 2" "Fin 2" x_field]
  by (simp add: unit_square_def x_field_def nudgeZero_def cellCode_def emitCell_def
      edgePoint_def lerpZero_def Let_def minus_number_def)


text \<open>
  C10, as stated, fails for a field that is \<^verbatim>\<open>NaN\<close> at a grid point, such as
  \<^verbatim>\<open>Math.sqrt(x) + 1\<close> left of the axis: \<^verbatim>\<open>NaN > 0\<close> is false, so the corner counts as not positive,
  the edge towards a positive corner is interpolated, and the end point is
  \<^verbatim>\<open>(NaN, NaN)\<close>, which is not within the rectangle.
\<close>

theorem zeroContourSegments_inside_counterexample:
  "zeroContourSegments unit_square nan_left_field (Suc 0) (Suc 0) =
     [\<lparr>seg_a = \<lparr>vx = NaN, vy = NaN\<rparr>, seg_b = \<lparr>vx = NaN, vy = NaN\<rparr>\<rparr>] \<and>
   \<not> insideRect unit_square \<lparr>vx = NaN, vy = NaN\<rparr>"
  by (simp add: zeroContourSegments_def contourVal_def contourCell_def unit_square_def
      nan_left_field_def nudgeZero_def cellCode_def emitCell_def edgePoint_def lerpZero_def
      Let_def minus_number_def insideRect_def)

text \<open>
  C10, amended: every end point of every returned segment is \<^verbatim>\<open>lerpZero\<close> of the two
  corners of one edge of one cell of the grid, taken at the positions that the loop
  computes for them and with the adjusted samples as values; and of these two values
  one is positive and the other is negative or \<^verbatim>\<open>NaN\<close>, so they are of strictly opposite
  sign when neither is \<^verbatim>\<open>NaN\<close>. Nothing is said about the interpolation parameter or
  about the rectangle.
\<close>

theorem zeroContourSegments_endpoints:
  assumes "s \<in> set (zeroContourSegments T field cols rows)"
    and "p = seg_a s \<or> p = seg_b s"
  shows "\<exists>j i e. j < rows \<and> i < cols \<and> e < 4 \<and>
           (case cellEdge T field cols rows j i e of
              ((p1, v1), (p2, v2)) \<Rightarrow>
                p = lerpZero (vx p1) (vy p1) v1 (vx p2) (vy p2) v2 \<and> signChange v1 v2)"
proof -
  from assms(1) obtain j i where ji: "j < rows" "i < cols"
    and s: "s \<in> set (tableCell T field cols rows j i)"
    unfolding zeroContourSegments_cells by auto
  from tableCell_endpoint[OF s assms(2)] obtain e where e: "e < 4"
    "p = interpolateZero (fst (cellEdge T field cols rows j i e))
                         (snd (cellEdge T field cols rows j i e))"
    "signChange (snd (fst (cellEdge T field cols rows j i e)))
                (snd (snd (cellEdge T field cols rows j i e)))"
    by blast
  obtain p1 v1 p2 v2 where c: "cellEdge T field cols rows j i e = ((p1, v1), (p2, v2))"
    by (metis surj_pair)
  have "p = lerpZero (vx p1) (vy p1) v1 (vx p2) (vy p2) v2 \<and> signChange v1 v2"
    using e(2,3) unfolding c by (simp add: interpolateZero_def lerpZero_def)
  then show ?thesis using ji e(1) c by force
qed

theorem zeroContourSegments_endpoints_witness:
  "\<lparr>seg_a = \<lparr>vx = Fin 0, vy = Fin (- 1)\<rparr>, seg_b = \<lparr>vx = Fin 0, vy = Fin 1\<rparr>\<rparr>
     \<in> set (zeroContourSegments unit_square x_field (Suc 0) (Suc 0)) \<and>
   cellEdge unit_square x_field (Suc 0) (Suc 0) 0 0 (Suc 0) =
     ((\<lparr>vx = Fin (- 1), vy = Fin (- 1)\<rparr>, Fin (- 1)), (\<lparr>vx = Fin 1, vy = Fin (- 1)\<rparr>, Fin 1)) \<and>
   lerpZero (Fin (- 1)) (Fin (- 1)) (Fin (- 1)) (Fin 1) (Fin (- 1)) (Fin 1) =
     \<lparr>vx = Fin 0, vy = Fin (- 1)\<rparr> \<and>
   signChange (Fin (- 1)) (Fin 1) \<and>
   (\<exists>j i e. j < Suc 0 \<and> i < Suc 0 \<and> e < 4 \<and>
      (case cellEdge unit_square x_field (Suc 0) (Suc 0) j i e of
         ((p1, v1), (p2, v2)) \<Rightarrow>
           \<lparr>vx = Fin 0, vy = Fin (- 1)\<rparr> = lerpZero (vx p1) (vy p1) v1 (vx p2) (vy p2) v2 \<and>
           signChange v1 v2))"
proof -
  let ?s = "\<lparr>seg_a = \<lparr>vx = Fin 0, vy = Fin (- 1)\<rparr>, seg_b = \<lparr>vx = Fin 0, vy = Fin 1\<rparr>\<rparr>"
  have m: "?s \<in> set (zeroContourSegments unit_square x_field (Suc 0) (Suc 0))"
    by (simp add: x_field_example)
  have a: "\<lparr>vx = Fin 0, vy = Fin (- 1)\<rparr> = seg_a ?s \<or> \<lparr>vx = Fin 0, vy = Fin (- 1)\<rparr> = seg_b ?s"
    by simp
  have c: "cellEdge unit_square x_field (Suc 0) (Suc 0) 0 0 (Suc 0) =
     ((\<lparr>vx = Fin (- 1), vy = Fin (- 1)\<rparr>, Fin (- 1)), (\<lparr>vx = Fin 1, vy = Fin (- 1)\<rparr>, Fin 1))"
    by (simp add: cellEdge_def cellCorners_def edgeEnds_def cornerValue_def unit_square_def
        x_field_def nudgeZero_def Let_def minus_number_def)
  have l: "lerpZero (Fin (- 1)) (Fin (- 1)) (Fin (- 1)) (Fin 1) (Fin (- 1)) (Fin 1) =
     \<lparr>vx = Fin 0, vy = Fin (- 1)\<rparr>"
    by (simp add: lerpZero_def Let_def minus_number_def)
  have g: "signChange (Fin (- 1)) (Fin 1)" by (simp add: signChange_def)
  show ?thesis
    using m c l g zeroContourSegments_endpoints[OF m a] by simp
qed

section \<open>Stitching segments into polylines\<close>

text \<open>
  \<^verbatim>\<open>Math.round\<close>: the nearest whole number, a tie going up; the special values are
  returned as they are.
\<close>

fun mathRound :: "number \<Rightarrow> number" where
  "mathRound (Fin r) = Fin (of_int \<lfloor>r + 1 / 2\<rfloor>)"
| "mathRound PInf = PInf"
| "mathRound NInf = NInf"
| "mathRound NaN = NaN"

text \<open>
  The key of a point is the string
  \<^verbatim>\<open>`${Math.round(p.x / keyTol)}_${Math.round(p.y / keyTol)}`\<close> with \<^verbatim>\<open>keyTol = 0.5\<close>. Keys are
  only compared with \<^verbatim>\<open>===\<close> and used as keys of a \<^verbatim>\<open>Map\<close>, and two such strings are
  equal exactly when the two rounded numbers are (no number prints with an underscore),
  so the key is modelled as the pair of the rounded numbers.
\<close>

type_synonym key = "number \<times> number"

definition key :: "Vec2 \<Rightarrow> key" where
  "key p = (mathRound (vx p / Fin (1 / 2)), mathRound (vy p / Fin (1 / 2)))"

text \<open>
  \<^verbatim>\<open>adj\<close> is a \<^verbatim>\<open>Map<string, number[]>\<close>. The body of the \<^verbatim>\<open>forEach\<close> first makes sure that
  both keys have an entry and then pushes the index to both entries (twice to the same
  entry when the two keys are equal).
\<close>

type_synonym adjacency = "key \<rightharpoonup> nat list"

definition adjEnsure :: "adjacency \<Rightarrow> key \<Rightarrow> adjacency" where
  "adjEnsure adj k = (if adj k = None then adj(k \<mapsto> []) else adj)"

text \<open>
  \<^verbatim>\<open>adj.get(k)!.push(i)\<close>. On a key without an entry the call would throw; it is made
  only after \<open>adjEnsure\<close> for the same key, so that branch is never taken.
\<close>

definition adjPush :: "adjacency \<Rightarrow> key \<Rightarrow> nat \<Rightarrow> adjacency" where
  "adjPush adj k i = (case adj k of None \<Rightarrow> adj | Some l \<Rightarrow> adj(k \<mapsto> l @ [i]))"

fun buildAdj :: "Segment list \<Rightarrow> nat \<Rightarrow> adjacency \<Rightarrow> adjacency" where
  "buildAdj [] i adj = adj"
| "buildAdj (s # rest) i adj =
     (let ka = key (seg_a s);
          kb = key (seg_b s);
          adj1 = adjEnsure adj ka;
          adj2 = adjEnsure adj1 kb;
          adj3 = adjPush adj2 ka i;
          adj4 = adjPush adj3 kb i
      in buildAdj rest (i + 1) adj4)"

text \<open>\<^verbatim>\<open>adj.get(k) || []\<close>.\<close>

definition adjGet :: "adjacency \<Rightarrow> key \<Rightarrow> nat list" where
  "adjGet adj k = (case adj k of None \<Rightarrow> [] | Some l \<Rightarrow> l)"

text \<open>
  The array \<^verbatim>\<open>used\<close>. Reading an index beyond the end of a JavaScript array gives
  \<^verbatim>\<open>undefined\<close>, which counts as false in a condition; writing there extends the array.
\<close>

definition isUsed :: "bool list \<Rightarrow> nat \<Rightarrow> bool" where
  "isUsed used idx \<longleftrightarrow> idx < length used \<and> used ! idx"

definition setUsed :: "bool list \<Rightarrow> nat \<Rightarrow> bool list" where
  "setUsed used idx =
     (if idx < length used then used[idx := True]
      else used @ replicate (idx - length used) False @ [True])"

text \<open>
  The loop \<^verbatim>\<open>for (const idx of incident)\<close>: it stops at the first index that is not
  used and has an end with the key \<open>k\<close>, and yields that index and the point at the
  other end. Reading \<^verbatim>\<open>A[idx]\<close> or \<^verbatim>\<open>B[idx]\<close> beyond the end gives \<^verbatim>\<open>undefined\<close>; \<^verbatim>\<open>key\<close> of
  \<^verbatim>\<open>undefined\<close> throws a \<^verbatim>\<open>TypeError\<close>, and an \<^verbatim>\<open>undefined\<close> \<^verbatim>\<open>next\<close> is skipped by
  \<^verbatim>\<open>if (next)\<close>.
\<close>

datatype scan = Stuck | Advance nat Vec2 | TypeError

fun scanIncident :: "key \<Rightarrow> Vec2 list \<Rightarrow> Vec2 list \<Rightarrow> bool list \<Rightarrow> nat list \<Rightarrow> scan" where
  "scanIncident k A B used [] = Stuck"
| "scanIncident k A B used (idx # rest) =
     (if isUsed used idx then scanIncident k A B used rest
      else if length A \<le> idx then TypeError
      else if key (A ! idx) = k then
        (if idx < length B then Advance idx (B ! idx) else scanIncident k A B used rest)
      else if length B \<le> idx then TypeError
      else if key (B ! idx) = k then Advance idx (A ! idx)
      else scanIncident k A B used rest)"

lemma scanIncident_Advance:
  "scanIncident k A B used l = Advance idx nxt \<Longrightarrow>
     idx \<in> set l \<and> \<not> isUsed used idx \<and> idx < length A \<and> idx < length B \<and>
     (nxt = A ! idx \<or> nxt = B ! idx)"
  by (induction l) (auto split: if_splits)

lemma isUsed_setUsed: "isUsed (setUsed used idx) j \<longleftrightarrow> j = idx \<or> isUsed used j"
  by (auto simp: isUsed_def setUsed_def nth_append nth_list_update)

lemma unused_decreases:
  assumes "idx < n" "\<not> isUsed used idx"
  shows "card {i. i < n \<and> \<not> isUsed (setUsed used idx) i} < card {i. i < n \<and> \<not> isUsed used i}"
proof -
  have "{i. i < n \<and> \<not> isUsed (setUsed used idx) i} \<subset> {i. i < n \<and> \<not> isUsed used i}"
    using assms by (auto simp: isUsed_setUsed)
  then show ?thesis by (intro psubset_card_mono) auto
qed

text \<open>
  The two \<^verbatim>\<open>while (true)\<close> loops. The state is \<^verbatim>\<open>used\<close>, \<^verbatim>\<open>chain\<close> and the end that is
  extended (\<^verbatim>\<open>right\<close> or \<^verbatim>\<open>left\<close>); the result is \<open>None\<close> when the scan throws. The list
  \<open>ids\<close> is not in the source: it records, in the order of the chain, the index of the
  segment that gave each step of the chain.
\<close>

type_synonym stitch_state = "bool list \<times> Vec2 list \<times> nat list \<times> Vec2"

function extendRight ::
  "adjacency \<Rightarrow> Vec2 list \<Rightarrow> Vec2 list \<Rightarrow> stitch_state \<Rightarrow> stitch_state option" where
  "extendRight adj A B (used, chain, ids, right) =
     (let k = key right;
          incident = adjGet adj k
      in case scanIncident k A B used incident of
           Stuck \<Rightarrow> Some (used, chain, ids, right)
         | TypeError \<Rightarrow> None
         | Advance idx nxt \<Rightarrow>
             extendRight adj A B (setUsed used idx, chain @ [nxt], ids @ [idx], nxt))"
  by pat_completeness auto
termination
  by (relation "measure (\<lambda>(adj, A, B, used, chain, ids, right).
        card {i. i < length A \<and> \<not> isUsed used i})")
     (auto dest!: scanIncident_Advance intro: unused_decreases)

function extendLeft ::
  "adjacency \<Rightarrow> Vec2 list \<Rightarrow> Vec2 list \<Rightarrow> stitch_state \<Rightarrow> stitch_state option" where
  "extendLeft adj A B (used, chain, ids, left) =
     (let k = key left;
          incident = adjGet adj k
      in case scanIncident k A B used incident of
           Stuck \<Rightarrow> Some (used, chain, ids, left)
         | TypeError \<Rightarrow> None
         | Advance idx nxt \<Rightarrow>
             extendLeft adj A B (setUsed used idx, nxt # chain, idx # ids, nxt))"
  by pat_completeness auto
termination
  by (relation "measure (\<lambda>(adj, A, B, used, chain, ids, left).
        card {i. i < length A \<and> \<not> isUsed used i})")
     (auto dest!: scanIncident_Advance intro: unused_decreases)

text \<open>
  The loop \<^verbatim>\<open>for (let i = 0; i < segsScreen.length; i++)\<close> over the indices still to
  visit, with \<^verbatim>\<open>used\<close> and \<^verbatim>\<open>polylines\<close> as state; each polyline comes with its \<open>ids\<close>.
\<close>

fun stitchLoop ::
  "adjacency \<Rightarrow> Vec2 list \<Rightarrow> Vec2 list \<Rightarrow> nat list \<Rightarrow> bool list \<Rightarrow>
   (Vec2 list \<times> nat list) list \<Rightarrow> (Vec2 list \<times> nat list) list option" where
  "stitchLoop adj A B [] used polylines = Some polylines"
| "stitchLoop adj A B (i # rest) used polylines =
     (if isUsed used i then stitchLoop adj A B rest used polylines
      else
        let used1 = setUsed used i;
            left = A ! i;
            right = B ! i;
            chain = [left, right]
        in case extendRight adj A B (used1, chain, [i], right) of
             None \<Rightarrow> None
           | Some (used2, chain2, ids2, right2) \<Rightarrow>
               (case extendLeft adj A B (used2, chain2, ids2, left) of
                  None \<Rightarrow> None
                | Some (used3, chain3, ids3, left3) \<Rightarrow>
                    stitchLoop adj A B rest used3 (polylines @ [(chain3, ids3)])))"

definition stitchTraced :: "Segment list \<Rightarrow> (Vec2 list \<times> nat list) list option" where
  "stitchTraced segsScreen =
     (let adj = buildAdj segsScreen 0 Map.empty;
          A = map seg_a segsScreen;
          B = map seg_b segsScreen;
          used = replicate (length segsScreen) False
      in stitchLoop adj A B [0..<length segsScreen] used [])"

definition stitchSegmentsToPolylines :: "Segment list \<Rightarrow> Vec2 list list option" where
  "stitchSegmentsToPolylines segsScreen = map_option (map fst) (stitchTraced segsScreen)"


text \<open>Three segments for the examples: two that share the point \<open>(10, 0)\<close> and one apart.\<close>

definition pt :: "real \<Rightarrow> real \<Rightarrow> Vec2" where
  "pt a b = \<lparr>vx = Fin a, vy = Fin b\<rparr>"

definition three_segments :: "Segment list" where
  "three_segments =
     [\<lparr>seg_a = pt 10 0, seg_b = pt 20 0\<rparr>,
      \<lparr>seg_a = pt 0 0, seg_b = pt 10 0\<rparr>,
      \<lparr>seg_a = pt 50 50, seg_b = pt 60 60\<rparr>]"

text \<open>
  Two predicates for the proofs: every index stored in \<^verbatim>\<open>adj\<close> is below \<open>n\<close>; and \<open>used'\<close>
  is \<open>used\<close> with exactly the indices \<open>new\<close> added, none of them used before or twice.
\<close>

definition adjOK :: "adjacency \<Rightarrow> nat \<Rightarrow> bool" where
  "adjOK adj n \<longleftrightarrow> (\<forall>k l. adj k = Some l \<longrightarrow> (\<forall>idx \<in> set l. idx < n))"

definition grows :: "nat \<Rightarrow> bool list \<Rightarrow> bool list \<Rightarrow> nat list \<Rightarrow> bool" where
  "grows n used used' new \<longleftrightarrow>
     length used' = n \<and> distinct new \<and>
     (\<forall>i \<in> set new. i < n \<and> \<not> isUsed used i) \<and>
     (\<forall>j. isUsed used' j \<longleftrightarrow> isUsed used j \<or> j \<in> set new)"

lemma adjOK_empty: "adjOK Map.empty n"
  by (simp add: adjOK_def)

lemma adjOK_ensure: "adjOK adj n \<Longrightarrow> adjOK (adjEnsure adj k) n"
  by (auto simp: adjOK_def adjEnsure_def split: if_splits)

lemma adjOK_push: "adjOK adj n \<Longrightarrow> i < n \<Longrightarrow> adjOK (adjPush adj k i) n"
  by (auto simp: adjOK_def adjPush_def split: option.splits if_splits)

lemma adjOK_build: "adjOK adj (i + length segs) \<Longrightarrow> adjOK (buildAdj segs i adj) (i + length segs)"
proof (induction segs arbitrary: i adj)
  case Nil
  then show ?case by simp
next
  case (Cons s rest)
  let ?adj4 = "adjPush (adjPush (adjEnsure (adjEnsure adj (key (seg_a s))) (key (seg_b s)))
                  (key (seg_a s)) i) (key (seg_b s)) i"
  have lt: "i < i + length (s # rest)" by simp
  have "adjOK ?adj4 (i + length (s # rest))"
    by (intro adjOK_push adjOK_ensure Cons.prems lt)
  then have "adjOK ?adj4 (i + 1 + length rest)" by simp
  then have "adjOK (buildAdj rest (i + 1) ?adj4) (i + 1 + length rest)"
    by (rule Cons.IH)
  then show ?case by (simp add: Let_def)
qed

lemma adjGet_OK:
  assumes "adjOK adj n" "idx \<in> set (adjGet adj k)"
  shows "idx < n"
proof (cases "adj k")
  case None
  with assms(2) show ?thesis by (simp add: adjGet_def)
next
  case (Some l)
  with assms(1) have "\<forall>idx \<in> set l. idx < n" unfolding adjOK_def by blast
  with assms(2) Some show ?thesis by (simp add: adjGet_def)
qed

lemma scanIncident_no_throw:
  "\<forall>idx \<in> set l. idx < n \<Longrightarrow> length A = n \<Longrightarrow> length B = n \<Longrightarrow>
   scanIncident k A B used l \<noteq> TypeError"
  by (induction l) auto

lemma length_setUsed: "idx < length used \<Longrightarrow> length (setUsed used idx) = length used"
  by (simp add: setUsed_def)

lemma grows_refl: "length used = n \<Longrightarrow> grows n used used []"
  by (simp add: grows_def)

lemma grows_step:
  assumes "length used = n" "idx < n" "\<not> isUsed used idx"
    and "grows n (setUsed used idx) used' new"
  shows "grows n used used' (idx # new)" "grows n used used' (new @ [idx])"
  using assms by (auto simp: grows_def isUsed_setUsed)


lemma extendRight_spec:
  assumes "adjOK adj n" "length A = n" "length B = n" "length used = n"
  shows "\<exists>used' chain' ids' right' new pts.
           extendRight adj A B (used, chain, ids, right) = Some (used', chain', ids', right') \<and>
           ids' = ids @ new \<and> chain' = chain @ pts \<and> length pts = length new \<and>
           grows n used used' new \<and>
           (\<forall>p \<in> set pts. \<exists>idx \<in> set new. p = A ! idx \<or> p = B ! idx)"
  using assms
proof (induction adj A B "(used, chain, ids, right)" arbitrary: used chain ids right
    rule: extendRight.induct)
  case (1 adj A B used chain ids right)
  let ?scan = "scanIncident (key right) A B used (adjGet adj (key right))"
  have nothrow: "?scan \<noteq> TypeError"
    using adjGet_OK[OF "1.prems"(1)] "1.prems"(2,3) by (intro scanIncident_no_throw) auto
  show ?case
  proof (cases ?scan)
    case Stuck
    then show ?thesis
      using grows_refl[OF "1.prems"(4)] by (simp add: Let_def)
  next
    case TypeError
    with nothrow show ?thesis by simp
  next
    case (Advance idx nxt)
    note adv = scanIncident_Advance[OF Advance]
    have idx: "idx < n" "\<not> isUsed used idx" using adv "1.prems"(2) by simp_all
    have len: "length (setUsed used idx) = n"
      using idx "1.prems"(4) by (simp add: length_setUsed)
    from "1.hyps"[OF refl refl Advance "1.prems"(1,2,3) len]
    obtain used' chain' ids' right' new pts where
      r: "extendRight adj A B (setUsed used idx, chain @ [nxt], ids @ [idx], nxt) =
            Some (used', chain', ids', right')"
      "ids' = (ids @ [idx]) @ new" "chain' = (chain @ [nxt]) @ pts" "length pts = length new"
      "grows n (setUsed used idx) used' new"
      "\<forall>p \<in> set pts. \<exists>idx \<in> set new. p = A ! idx \<or> p = B ! idx"
      by blast
    have e: "\<forall>p \<in> set (nxt # pts). \<exists>i \<in> set (idx # new). p = A ! i \<or> p = B ! i"
      using r(6) adv by auto
    have g: "grows n used used' (idx # new)"
      by (rule grows_step(1)[OF "1.prems"(4) idx r(5)])
    have "extendRight adj A B (used, chain, ids, right) = Some (used', chain', ids', right')"
      using Advance r(1) by (simp add: Let_def)
    moreover have "ids' = ids @ (idx # new)" "chain' = chain @ (nxt # pts)"
      "length (nxt # pts) = length (idx # new)"
      using r(2-4) by simp_all
    ultimately show ?thesis using g e by blast
  qed
qed

lemma extendLeft_spec:
  assumes "adjOK adj n" "length A = n" "length B = n" "length used = n"
  shows "\<exists>used' chain' ids' left' new pts.
           extendLeft adj A B (used, chain, ids, left) = Some (used', chain', ids', left') \<and>
           ids' = new @ ids \<and> chain' = pts @ chain \<and> length pts = length new \<and>
           grows n used used' new \<and>
           (\<forall>p \<in> set pts. \<exists>idx \<in> set new. p = A ! idx \<or> p = B ! idx)"
  using assms
proof (induction adj A B "(used, chain, ids, left)" arbitrary: used chain ids left
    rule: extendLeft.induct)
  case (1 adj A B used chain ids left)
  let ?scan = "scanIncident (key left) A B used (adjGet adj (key left))"
  have nothrow: "?scan \<noteq> TypeError"
    using adjGet_OK[OF "1.prems"(1)] "1.prems"(2,3) by (intro scanIncident_no_throw) auto
  show ?case
  proof (cases ?scan)
    case Stuck
    then show ?thesis
      using grows_refl[OF "1.prems"(4)] by (simp add: Let_def)
  next
    case TypeError
    with nothrow show ?thesis by simp
  next
    case (Advance idx nxt)
    note adv = scanIncident_Advance[OF Advance]
    have idx: "idx < n" "\<not> isUsed used idx" using adv "1.prems"(2) by simp_all
    have len: "length (setUsed used idx) = n"
      using idx "1.prems"(4) by (simp add: length_setUsed)
    from "1.hyps"[OF refl refl Advance "1.prems"(1,2,3) len]
    obtain used' chain' ids' left' new pts where
      r: "extendLeft adj A B (setUsed used idx, nxt # chain, idx # ids, nxt) =
            Some (used', chain', ids', left')"
      "ids' = new @ (idx # ids)" "chain' = pts @ (nxt # chain)" "length pts = length new"
      "grows n (setUsed used idx) used' new"
      "\<forall>p \<in> set pts. \<exists>idx \<in> set new. p = A ! idx \<or> p = B ! idx"
      by blast
    have e: "\<forall>p \<in> set (pts @ [nxt]). \<exists>i \<in> set (new @ [idx]). p = A ! i \<or> p = B ! i"
      using r(6) adv by auto
    have g: "grows n used used' (new @ [idx])"
      by (rule grows_step(2)[OF "1.prems"(4) idx r(5)])
    have "extendLeft adj A B (used, chain, ids, left) = Some (used', chain', ids', left')"
      using Advance r(1) by (simp add: Let_def)
    moreover have "ids' = (new @ [idx]) @ ids" "chain' = (pts @ [nxt]) @ chain"
      "length (pts @ [nxt]) = length (new @ [idx])"
      using r(2-4) by simp_all
    ultimately show ?thesis using g e by blast
  qed
qed


text \<open>
  The invariant of the outer loop: the indices recorded with the polylines built so far
  are, without repetition, the indices marked in \<^verbatim>\<open>used\<close>; each polyline has one point
  more than indices, and each of its points is an end of one of its segments.
\<close>

definition traced ::
  "Vec2 list \<Rightarrow> Vec2 list \<Rightarrow> nat \<Rightarrow> bool list \<Rightarrow> (Vec2 list \<times> nat list) list \<Rightarrow> bool" where
  "traced A B n used polylines \<longleftrightarrow>
     length used = n \<and>
     distinct (concat (map snd polylines)) \<and>
     set (concat (map snd polylines)) = {j. isUsed used j} \<and>
     (\<forall>pl \<in> set polylines. length (fst pl) = length (snd pl) + 1 \<and>
        (\<forall>p \<in> set (fst pl). \<exists>idx \<in> set (snd pl). p = A ! idx \<or> p = B ! idx))"

lemma traced_add:
  assumes t: "traced A B n used polylines" and i: "i < n" "\<not> isUsed used i"
    and g1: "grows n (setUsed used i) used2 new"
    and g2: "grows n used2 used3 new'"
    and len: "length chain3 = length (new' @ [i] @ new) + 1"
    and ends: "\<forall>p \<in> set chain3. \<exists>idx \<in> set (new' @ [i] @ new). p = A ! idx \<or> p = B ! idx"
  shows "traced A B n used3 (polylines @ [(chain3, new' @ [i] @ new)])"
proof -
  let ?D = "concat (map snd polylines)"
  have D: "distinct ?D" "set ?D = {j. isUsed used j}"
    and pl: "\<forall>pl \<in> set polylines. length (fst pl) = length (snd pl) + 1 \<and>
        (\<forall>p \<in> set (fst pl). \<exists>idx \<in> set (snd pl). p = A ! idx \<or> p = B ! idx)"
    using t by (simp_all add: traced_def)
  have n3: "length used3 = n" using g2 by (simp add: grows_def)
  have new: "distinct new" "\<forall>j \<in> set new. j \<noteq> i \<and> \<not> isUsed used j"
    using g1 by (auto simp: grows_def isUsed_setUsed)
  have u2: "\<And>j. isUsed used2 j \<longleftrightarrow> j = i \<or> isUsed used j \<or> j \<in> set new"
    using g1 by (auto simp: grows_def isUsed_setUsed)
  have new': "distinct new'" "\<forall>j \<in> set new'. j \<noteq> i \<and> \<not> isUsed used j \<and> j \<notin> set new"
    using g2 u2 by (auto simp: grows_def)
  have u3: "\<And>j. isUsed used3 j \<longleftrightarrow> j = i \<or> isUsed used j \<or> j \<in> set new \<or> j \<in> set new'"
    using g2 u2 by (auto simp: grows_def)
  have d: "distinct (?D @ new' @ [i] @ new)"
    using D new new' i(2) by auto
  have s: "set (?D @ new' @ [i] @ new) = {j. isUsed used3 j}"
    using D(2) u3 by auto
  show ?thesis
    unfolding traced_def using n3 d s pl len ends by simp
qed

lemma stitchLoop_spec:
  assumes "adjOK adj n" "length A = n" "length B = n"
    and "traced A B n used polylines" "\<forall>i \<in> set is. i < n"
  shows "\<exists>res used'. stitchLoop adj A B is used polylines = Some res \<and> traced A B n used' res \<and>
           (\<forall>j. isUsed used j \<longrightarrow> isUsed used' j) \<and> (\<forall>i \<in> set is. isUsed used' i)"
  using assms(4,5)
proof (induction "is" arbitrary: used polylines)
  case Nil
  then show ?case by auto
next
  case (Cons i rest)
  have rest: "\<forall>i \<in> set rest. i < n" and i: "i < n" using Cons.prems(2) by simp_all
  show ?case
  proof (cases "isUsed used i")
    case True
    from Cons.IH[OF Cons.prems(1) rest] obtain res used' where
      "stitchLoop adj A B rest used polylines = Some res" "traced A B n used' res"
      "\<forall>j. isUsed used j \<longrightarrow> isUsed used' j" "\<forall>i \<in> set rest. isUsed used' i"
      by blast
    then show ?thesis using True by auto
  next
    case False
    have n0: "length used = n" using Cons.prems(1) by (simp add: traced_def)
    have n1: "length (setUsed used i) = n" using n0 i by (simp add: length_setUsed)
    from extendRight_spec[OF assms(1,2,3) n1, of "[A ! i, B ! i]" "[i]" "B ! i"]
    obtain used2 chain2 ids2 right2 new pts where
      r: "extendRight adj A B (setUsed used i, [A ! i, B ! i], [i], B ! i) =
            Some (used2, chain2, ids2, right2)"
      "ids2 = [i] @ new" "chain2 = [A ! i, B ! i] @ pts" "length pts = length new"
      "grows n (setUsed used i) used2 new"
      "\<forall>p \<in> set pts. \<exists>idx \<in> set new. p = A ! idx \<or> p = B ! idx"
      by blast
    have n2: "length used2 = n" using r(5) by (simp add: grows_def)
    from extendLeft_spec[OF assms(1,2,3) n2, of chain2 ids2 "A ! i"]
    obtain used3 chain3 ids3 left3 new' pts' where
      l: "extendLeft adj A B (used2, chain2, ids2, A ! i) = Some (used3, chain3, ids3, left3)"
      "ids3 = new' @ ids2" "chain3 = pts' @ chain2" "length pts' = length new'"
      "grows n used2 used3 new'"
      "\<forall>p \<in> set pts'. \<exists>idx \<in> set new'. p = A ! idx \<or> p = B ! idx"
      by blast
    have ids3: "ids3 = new' @ [i] @ new" using l(2) r(2) by simp
    have len: "length chain3 = length (new' @ [i] @ new) + 1"
      using l(3,4) r(3,4) by simp
    have ends: "\<forall>p \<in> set chain3. \<exists>idx \<in> set (new' @ [i] @ new). p = A ! idx \<or> p = B ! idx"
      unfolding l(3) r(3) using r(6) l(6) by auto
    have t3: "traced A B n used3 (polylines @ [(chain3, ids3)])"
      unfolding ids3 by (rule traced_add[OF Cons.prems(1) i False r(5) l(5) len ends])
    from Cons.IH[OF t3 rest] obtain res used' where
      res: "stitchLoop adj A B rest used3 (polylines @ [(chain3, ids3)]) = Some res"
      "traced A B n used' res" "\<forall>j. isUsed used3 j \<longrightarrow> isUsed used' j"
      "\<forall>i \<in> set rest. isUsed used' i"
      by blast
    have mono: "\<And>j. isUsed used j \<or> j = i \<Longrightarrow> isUsed used3 j"
      using r(5) l(5) by (auto simp: grows_def isUsed_setUsed)
    have "stitchLoop adj A B (i # rest) used polylines = Some res"
      using False r(1) l(1) res(1) by (simp add: Let_def)
    moreover have "\<forall>j. isUsed used j \<longrightarrow> isUsed used' j" using mono res(3) by blast
    moreover have "\<forall>i' \<in> set (i # rest). isUsed used' i'" using mono res(3,4) by auto
    ultimately show ?thesis using res(2) by blast
  qed
qed

lemma traced_initial: "traced A B n (replicate n False) []"
  by (simp add: traced_def isUsed_def)

lemma stitchTraced_spec:
  "\<exists>res. stitchTraced segs = Some res \<and>
         distinct (concat (map snd res)) \<and>
         set (concat (map snd res)) = {..<length segs} \<and>
         (\<forall>pl \<in> set res. length (fst pl) = length (snd pl) + 1 \<and>
            (\<forall>p \<in> set (fst pl). \<exists>idx \<in> set (snd pl).
               p = seg_a (segs ! idx) \<or> p = seg_b (segs ! idx)))"
proof -
  let ?n = "length segs"
  have ok: "adjOK (buildAdj segs 0 Map.empty) ?n"
    using adjOK_build[of Map.empty 0 segs] by (simp add: adjOK_empty)
  have idx: "\<forall>i \<in> set [0..<?n]. i < ?n" by simp
  from stitchLoop_spec[OF ok _ _ traced_initial idx, of "map seg_a segs" "map seg_b segs"]
  obtain res used' where
    res: "stitchLoop (buildAdj segs 0 Map.empty) (map seg_a segs) (map seg_b segs) [0..<?n]
            (replicate ?n False) [] = Some res"
    "traced (map seg_a segs) (map seg_b segs) ?n used' res" "\<forall>i \<in> set [0..<?n]. isUsed used' i"
    by auto
  have all: "{j. isUsed used' j} = {..<?n}"
    using res(2,3) by (auto simp: traced_def isUsed_def)
  have st: "stitchTraced segs = Some res"
    using res(1) by (simp add: stitchTraced_def Let_def)
  have d: "distinct (concat (map snd res))" and c: "set (concat (map snd res)) = {..<?n}"
    using res(2) all by (simp_all add: traced_def)
  have pl: "\<forall>pl \<in> set res. length (fst pl) = length (snd pl) + 1 \<and>
      (\<forall>p \<in> set (fst pl). \<exists>idx \<in> set (snd pl).
         p = map seg_a segs ! idx \<or> p = map seg_b segs ! idx)"
    using res(2) by (simp add: traced_def)
  have "\<forall>pl \<in> set res. length (fst pl) = length (snd pl) + 1 \<and>
      (\<forall>p \<in> set (fst pl). \<exists>idx \<in> set (snd pl).
         p = seg_a (segs ! idx) \<or> p = seg_b (segs ! idx))"
  proof (intro ballI conjI)
    fix pl assume m: "pl \<in> set res"
    then show "length (fst pl) = length (snd pl) + 1" using pl by blast
    fix p assume p: "p \<in> set (fst pl)"
    then obtain idx where i: "idx \<in> set (snd pl)"
      "p = map seg_a segs ! idx \<or> p = map seg_b segs ! idx"
      using pl m by blast
    have "idx \<in> set (concat (map snd res))" using i(1) m by auto
    then have "idx \<in> {..<?n}" unfolding c .
    then have "idx < ?n" by simp
    then show "\<exists>idx \<in> set (snd pl). p = seg_a (segs ! idx) \<or> p = seg_b (segs ! idx)"
      using i by auto
  qed
  then show ?thesis using st d c by blast
qed

lemma sum_list_length_concat: "(\<Sum>l\<leftarrow>ls. length l) = length (concat ls)"
  by (induction ls) auto

lemma stitch_conservation:
  assumes "distinct (concat (map snd res))" "set (concat (map snd res)) = {..<n}"
    "\<forall>pl \<in> set res. length (fst pl) = length (snd pl) + 1"
  shows "(\<Sum>p\<leftarrow>map fst res. length p - 1) = n"
proof -
  have "(\<Sum>p\<leftarrow>map fst res. length p - 1) = (\<Sum>pl\<leftarrow>res. length (fst pl) - 1)"
    by (simp add: comp_def)
  also have "\<dots> = (\<Sum>pl\<leftarrow>res. length (snd pl))"
    using assms(3) by (intro arg_cong[where f=sum_list] map_cong) auto
  also have "\<dots> = length (concat (map snd res))"
    using sum_list_length_concat[of "map snd res"] by (simp add: comp_def)
  also have "\<dots> = card (set (concat (map snd res)))"
    using distinct_card[OF assms(1)] by (rule sym)
  also have "\<dots> = n" unfolding assms(2) by simp
  finally show ?thesis .
qed


lemma key_pt:
  "key (pt a b) =
     (Fin (of_int \<lfloor>a / (1 / 2) + 1 / 2\<rfloor>), Fin (of_int \<lfloor>b / (1 / 2) + 1 / 2\<rfloor>))"
  by (simp add: key_def pt_def)

lemma three_segments_traced:
  "stitchTraced three_segments =
     Some [([pt 0 0, pt 10 0, pt 20 0], [1, 0]), ([pt 50 50, pt 60 60], [2])]"
  by (simp add: stitchTraced_def three_segments_def Let_def key_pt adjEnsure_def adjPush_def
      adjGet_def isUsed_def setUsed_def upt_rec[of 0] upt_rec[of 1] upt_rec[of 2]
      upt_rec[of 3] numeral_3_eq_3)

text \<open>
  C3: for every list of segments \<^verbatim>\<open>stitchSegmentsToPolylines\<close> returns (it does not throw),
  the sum over the polylines of their length minus one is the number of segments, and
  every segment is consumed exactly once: the indices of the segments that the
  polylines were built from, all polylines together, are the indices \<open>0, \<dots>, n - 1\<close>
  without repetition. A polyline has one point more than it has segments, and each of
  its points is an end of one of its own segments.
\<close>

theorem stitch_segment_conservation:
  "\<exists>res. stitchTraced segs = Some res \<and>
         stitchSegmentsToPolylines segs = Some (map fst res) \<and>
         (\<Sum>p\<leftarrow>map fst res. length p - 1) = length segs \<and>
         distinct (concat (map snd res)) \<and>
         set (concat (map snd res)) = {..<length segs} \<and>
         (\<forall>pl \<in> set res. length (fst pl) = length (snd pl) + 1 \<and>
            (\<forall>p \<in> set (fst pl). \<exists>idx \<in> set (snd pl).
               p = seg_a (segs ! idx) \<or> p = seg_b (segs ! idx)))"
proof -
  obtain res where res: "stitchTraced segs = Some res"
    "distinct (concat (map snd res))" "set (concat (map snd res)) = {..<length segs}"
    "\<forall>pl \<in> set res. length (fst pl) = length (snd pl) + 1 \<and>
       (\<forall>p \<in> set (fst pl). \<exists>idx \<in> set (snd pl).
          p = seg_a (segs ! idx) \<or> p = seg_b (segs ! idx))"
    using stitchTraced_spec[of segs] by blast
  have len: "\<forall>pl \<in> set res. length (fst pl) = length (snd pl) + 1" using res(4) by blast
  have "(\<Sum>p\<leftarrow>map fst res. length p - 1) = length segs"
    by (rule stitch_conservation[OF res(2,3) len])
  moreover have "stitchSegmentsToPolylines segs = Some (map fst res)"
    by (simp add: stitchSegmentsToPolylines_def res(1))
  ultimately show ?thesis using res by blast
qed

theorem stitch_segment_conservation_witness:
  "stitchSegmentsToPolylines three_segments =
     Some [[pt 0 0, pt 10 0, pt 20 0], [pt 50 50, pt 60 60]] \<and>
   (\<Sum>p\<leftarrow>[[pt 0 0, pt 10 0, pt 20 0], [pt 50 50, pt 60 60]]. length p - 1) =
     length three_segments \<and>
   distinct (concat [[1, 0], [2::nat]]) \<and>
   set (concat [[1, 0], [2::nat]]) = {..<length three_segments}"
proof -
  have "\<exists>res. stitchTraced three_segments = Some res \<and>
         stitchSegmentsToPolylines three_segments = Some (map fst res) \<and>
         (\<Sum>p\<leftarrow>map fst res. length p - 1) = length three_segments \<and>
         distinct (concat (map snd res)) \<and>
         set (concat (map snd res)) = {..<length three_segments}"
    using stitch_segment_conservation[of three_segments] by blast
  then obtain res where res: "stitchTraced three_segments = Some res"
    "stitchSegmentsToPolylines three_segments = Some (map fst res)"
    "(\<Sum>p\<leftarrow>map fst res. length p - 1) = length three_segments"
    "distinct (concat (map snd res))"
    "set (concat (map snd res)) = {..<length three_segments}"
    by blast
  have "res = [([pt 0 0, pt 10 0, pt 20 0], [1, 0]), ([pt 50 50, pt 60 60], [2])]"
    using res(1) by (simp add: three_segments_traced)
  with res(2-5) show ?thesis by simp
qed

section \<open>Equilibria\<close>

text \<open>
  \<^verbatim>\<open>Math.hypot\<close> of two numbers: \<^verbatim>\<open>Infinity\<close> when one of them is infinite, else \<^verbatim>\<open>NaN\<close>
  when one of them is \<^verbatim>\<open>NaN\<close>, else the square root of the sum of the squares.
\<close>

fun hypot :: "number \<Rightarrow> number \<Rightarrow> number" where
  "hypot (Fin a) (Fin b) = Fin (sqrt (a * a + b * b))"
| "hypot PInf b = PInf"
| "hypot NInf b = PInf"
| "hypot a PInf = PInf"
| "hypot a NInf = PInf"
| "hypot NaN b = NaN"
| "hypot a NaN = NaN"

text \<open>\<^verbatim>\<open>Math.min\<close> of two numbers: \<^verbatim>\<open>NaN\<close> when one of them is \<^verbatim>\<open>NaN\<close>.\<close>

definition mathMin :: "number \<Rightarrow> number \<Rightarrow> number" where
  "mathMin a b = (if isNaN a \<or> isNaN b then NaN else if a \<le> b then a else b)"

text \<open>\<^verbatim>\<open>segIntersect\<close>; \<open>None\<close> is \<^verbatim>\<open>null\<close>.\<close>

definition segIntersect :: "Vec2 \<Rightarrow> Vec2 \<Rightarrow> Vec2 \<Rightarrow> Vec2 \<Rightarrow> Vec2 option" where
  "segIntersect a b c d =
     (let x1 = vx a; y1 = vy a; x2 = vx b; y2 = vy b;
          x3 = vx c; y3 = vy c; x4 = vx d; y4 = vy d;
          den = (x1 - x2) * (y3 - y4) - (y1 - y2) * (x3 - x4)
      in if \<bar>den\<bar> < Fin (1 / 10 ^ 20) then None
         else
           let t = ((x1 - x3) * (y3 - y4) - (y1 - y3) * (x3 - x4)) / den;
               u = ((x1 - x3) * (y1 - y2) - (y1 - y3) * (x1 - x2)) / den
           in if t < - Fin (1 / 10 ^ 9) \<or> t > Fin 1 + Fin (1 / 10 ^ 9) \<or>
                 u < - Fin (1 / 10 ^ 9) \<or> u > Fin 1 + Fin (1 / 10 ^ 9)
              then None
              else Some \<lparr>vx = x1 + t * (x2 - x1), vy = y1 + t * (y2 - y1)\<rparr>)"

text \<open>
  The loop \<^verbatim>\<open>for (let it = 0; it < 3; it++)\<close> of \<^verbatim>\<open>newtonPolish\<close>, with the number of
  iterations still to run as the first argument and \<^verbatim>\<open>x\<close> and \<^verbatim>\<open>y\<close> as state.
\<close>

fun newtonLoop :: "nat \<Rightarrow> System \<Rightarrow> number \<Rightarrow> number \<Rightarrow> number \<Rightarrow> number \<Rightarrow> Vec2" where
  "newtonLoop 0 sys hx hy x y = \<lparr>vx = x, vy = y\<rparr>"
| "newtonLoop (Suc n) sys hx hy x y =
     (let fx = sys_f sys x y (sys_params sys);
          gy = sys_g sys x y (sys_params sys);
          f_xph = sys_f sys (x + hx) y (sys_params sys);
          f_xmh = sys_f sys (x - hx) y (sys_params sys);
          f_yph = sys_f sys x (y + hy) (sys_params sys);
          f_ymh = sys_f sys x (y - hy) (sys_params sys);
          g_xph = sys_g sys (x + hx) y (sys_params sys);
          g_xmh = sys_g sys (x - hx) y (sys_params sys);
          g_yph = sys_g sys x (y + hy) (sys_params sys);
          g_ymh = sys_g sys x (y - hy) (sys_params sys);
          a = (f_xph - f_xmh) / (Fin 2 * hx);
          b = (f_yph - f_ymh) / (Fin 2 * hy);
          c = (g_xph - g_xmh) / (Fin 2 * hx);
          d = (g_yph - g_ymh) / (Fin 2 * hy);
          det = a * d - b * c
      in if \<bar>det\<bar> < Fin (1 / 10 ^ 20) then \<lparr>vx = x, vy = y\<rparr>
         else
           let sx = (- fx * d + b * gy) / det;
               sy = (- a * gy + fx * c) / det;
               x' = x - sx;
               y' = y - sy
           in if hypot sx sy < Fin (1 / 10 ^ 12) then \<lparr>vx = x', vy = y'\<rparr>
              else newtonLoop n sys hx hy x' y')"

definition newtonPolish :: "System \<Rightarrow> Vec2 \<Rightarrow> number \<Rightarrow> Vec2" where
  "newtonPolish sys p step = newtonLoop 3 sys step step (vx p) (vy p)"

text \<open>
  The loop labelled \<^verbatim>\<open>outer\<close>: a candidate is kept unless a point kept before lies within
  \<^verbatim>\<open>tol\<close> of it.
\<close>

fun dedupe :: "number \<Rightarrow> Vec2 list \<Rightarrow> Vec2 list \<Rightarrow> Vec2 list" where
  "dedupe tol [] uniq = uniq"
| "dedupe tol (p # rest) uniq =
     (if \<exists>q \<in> set uniq. hypot (vx p - vx q) (vy p - vy q) \<le> tol
      then dedupe tol rest uniq
      else dedupe tol rest (uniq @ [p]))"

text \<open>
  \<^verbatim>\<open>findEquilibria\<close>. The option \<^verbatim>\<open>density\<close> is \<open>None\<close> when it is not given and a finite
  number otherwise.
\<close>

definition findEquilibria :: "Transform \<Rightarrow> System \<Rightarrow> real option \<Rightarrow> Vec2 list" where
  "findEquilibria T sys density =
     (let cols = nat (max 8 \<lfloor>case density of None \<Rightarrow> 120 | Some d \<Rightarrow> d\<rfloor>);
          rows = cols;
          segsF = zeroContourSegments T (\<lambda>x y. sys_f sys x y (sys_params sys)) cols rows;
          segsG = zeroContourSegments T (\<lambda>x y. sys_g sys x y (sys_params sys)) cols rows;
          candidates = concat (map (\<lambda>s1. concat (map (\<lambda>s2.
              case segIntersect (seg_a s1) (seg_b s1) (seg_a s2) (seg_b s2) of
                None \<Rightarrow> [] | Some p \<Rightarrow> [p]) segsG)) segsF);
          tol = mathMin ((xmax T - xmin T) / Fin (real cols)) ((ymax T - ymin T) / Fin (real rows))
                  * Fin (3 / 4);
          uniq = dedupe tol candidates [];
          step = tol * Fin (1 / 2);
          polished = map (\<lambda>p. newtonPolish sys p step) uniq
      in polished)"

text \<open>
  An input for the example: the system \<^verbatim>\<open>{ f: (x, y) => x * x - 2, g: (x, y) => y * y - 2,
  params: {} }\<close> on the square \<open>[0, 8] \<times> [0, 8]\<close>, whose only equilibrium there is
  \<open>(sqrt 2, sqrt 2)\<close>.
\<close>

definition parabola_system :: System where
  "parabola_system =
     \<lparr>sys_f = (\<lambda>x y p. x * x - Fin 2), sys_g = (\<lambda>x y p. y * y - Fin 2), sys_params = Map.empty\<rparr>"

definition square8 :: Transform where
  "square8 = \<lparr>xmin = Fin 0, xmax = Fin 8, ymin = Fin 0, ymax = Fin 8\<rparr>"

subsection \<open>The direction of the correction\<close>

text \<open>
  With \<open>a, b, c, d\<close> the Jacobian and \<open>det\<close> its determinant, the pair \<^verbatim>\<open>(sx, sy)\<close> of the
  source solves \<open>J s = - F\<close>: it is the Newton correction itself, the vector to add to
  the iterate. The source subtracts it (\<^verbatim>\<open>x -= sx; y -= sy\<close>).
\<close>

lemma source_correction_solves:
  fixes a b c d fx gy det :: real
  assumes det: "det = a * d - b * c" and nz: "det \<noteq> 0"
  shows "a * ((- fx * d + b * gy) / det) + b * ((- a * gy + fx * c) / det) = - fx"
    and "c * ((- fx * d + b * gy) / det) + d * ((- a * gy + fx * c) / det) = - gy"
proof -
  have "a * (- fx * d + b * gy) + b * (- a * gy + fx * c) = - fx * det"
    by (simp add: det algebra_simps)
  then have "(a * (- fx * d + b * gy) + b * (- a * gy + fx * c)) / det = - fx"
    using nz by simp
  then show "a * ((- fx * d + b * gy) / det) + b * ((- a * gy + fx * c) / det) = - fx"
    by (simp add: add_divide_distrib)
  have "c * (- fx * d + b * gy) + d * (- a * gy + fx * c) = - gy * det"
    by (simp add: det algebra_simps)
  then have "(c * (- fx * d + b * gy) + d * (- a * gy + fx * c)) / det = - gy"
    using nz by simp
  then show "c * ((- fx * d + b * gy) / det) + d * ((- a * gy + fx * c) / det) = - gy"
    by (simp add: add_divide_distrib)
qed

lemma hypot_less: "0 < e \<Longrightarrow> (hypot (Fin a) (Fin b) < Fin e) = (a * a + b * b < e * e)"
proof -
  assume e: "0 < e"
  have "sqrt (a * a + b * b) < e \<longleftrightarrow> sqrt (a * a + b * b) < sqrt (e * e)"
    using e by simp
  also have "\<dots> \<longleftrightarrow> a * a + b * b < e * e" by (rule real_sqrt_less_iff)
  finally show ?thesis by simp
qed

lemma newton_example:
  "newtonPolish parabola_system \<lparr>vx = Fin (4 / 3), vy = Fin (4 / 3)\<rparr> (Fin (3 / 8)) =
     \<lparr>vx = Fin (2347 / 3440), vy = Fin (2347 / 3440)\<rparr>"
  by (simp add: newtonPolish_def parabola_system_def numeral_3_eq_3 Let_def minus_number_def hypot_less
      del: hypot.simps)


lemma upt_0_8: "[0..<8] = [0, 1, 2, 3, 4, 5, 6, 7]"
  by code_simp

lemma tableCell_F:
  "i < 8 \<Longrightarrow> tableCell square8 (\<lambda>x y. x * x - Fin 2) 8 8 j i =
     (if i = 1 then [\<lparr>seg_a = \<lparr>vx = Fin (4 / 3), vy = Fin (real j)\<rparr>,
                      seg_b = \<lparr>vx = Fin (4 / 3), vy = Fin (real j + 1)\<rparr>\<rparr>] else [])"
proof -
  assume "i < 8"
  then have "i \<in> set [0..<8]" by simp
  then have "i = 0 \<or> i = 1 \<or> i = 2 \<or> i = 3 \<or> i = 4 \<or> i = 5 \<or> i = 6 \<or> i = 7"
    unfolding upt_0_8 by simp
  then show ?thesis
    by (elim disjE)
      (simp_all add: tableCell_def cornerValue_def square8_def nudgeZero_def tableCode_def
        cornerBit_def emissionTable_def tableEdge_def interpolateZero_def Let_def minus_number_def)
qed


lemma tableCell_G:
  "j < 8 \<Longrightarrow> tableCell square8 (\<lambda>x y. y * y - Fin 2) 8 8 j i =
     (if j = 1 then [\<lparr>seg_a = \<lparr>vx = Fin (real i), vy = Fin (4 / 3)\<rparr>,
                      seg_b = \<lparr>vx = Fin (real i + 1), vy = Fin (4 / 3)\<rparr>\<rparr>] else [])"
proof -
  assume "j < 8"
  then have "j \<in> set [0..<8]" by simp
  then have "j = 0 \<or> j = 1 \<or> j = 2 \<or> j = 3 \<or> j = 4 \<or> j = 5 \<or> j = 6 \<or> j = 7"
    unfolding upt_0_8 by simp
  then show ?thesis
    by (elim disjE)
      (simp_all add: tableCell_def cornerValue_def square8_def nudgeZero_def tableCode_def
        cornerBit_def emissionTable_def tableEdge_def interpolateZero_def Let_def minus_number_def)
qed

lemma segs_F:
  "zeroContourSegments square8 (\<lambda>x y. x * x - Fin 2) 8 8 =
     map (\<lambda>j. \<lparr>seg_a = \<lparr>vx = Fin (4 / 3), vy = Fin (real j)\<rparr>,
                seg_b = \<lparr>vx = Fin (4 / 3), vy = Fin (real j + 1)\<rparr>\<rparr>) [0, 1, 2, 3, 4, 5, 6, 7]"
  unfolding zeroContourSegments_cells upt_0_8 by (simp add: tableCell_F)

lemma segs_G:
  "zeroContourSegments square8 (\<lambda>x y. y * y - Fin 2) 8 8 =
     map (\<lambda>i. \<lparr>seg_a = \<lparr>vx = Fin (real i), vy = Fin (4 / 3)\<rparr>,
                seg_b = \<lparr>vx = Fin (real i + 1), vy = Fin (4 / 3)\<rparr>\<rparr>) [0, 1, 2, 3, 4, 5, 6, 7]"
  unfolding zeroContourSegments_cells upt_0_8 by (simp add: tableCell_G)

lemma findEquilibria_parabola:
  "findEquilibria square8 parabola_system (Some 8) =
     [\<lparr>vx = Fin (2347 / 3440), vy = Fin (2347 / 3440)\<rparr>]"
proof -
  have cols: "nat (max 8 \<lfloor>8::real\<rfloor>) = 8" by simp
  have tol: "mathMin ((xmax square8 - xmin square8) / Fin (real (8::nat)))
               ((ymax square8 - ymin square8) / Fin (real (8::nat))) * Fin (3 / 4) = Fin (3 / 4)"
    by (simp add: mathMin_def square8_def minus_number_def)
  have cand: "concat (map (\<lambda>s1. concat (map (\<lambda>s2.
              case segIntersect (seg_a s1) (seg_b s1) (seg_a s2) (seg_b s2) of
                None \<Rightarrow> [] | Some p \<Rightarrow> [p])
              (zeroContourSegments square8 (\<lambda>x y. y * y - Fin 2) 8 8)))
              (zeroContourSegments square8 (\<lambda>x y. x * x - Fin 2) 8 8)) =
        [\<lparr>vx = Fin (4 / 3), vy = Fin (4 / 3)\<rparr>]"
    unfolding segs_F segs_G by (simp add: segIntersect_def Let_def minus_number_def)
  show ?thesis
    unfolding findEquilibria_def Let_def option.case cols tol
    by (simp add: parabola_system_def cand)
      (simp add: newton_example[unfolded parabola_system_def])
qed


text \<open>
  C2 says that each iteration replaces the iterate by the iterate minus the inverse
  Jacobian times \<open>(f, g)\<close>. On the system above with \<^verbatim>\<open>density: 8\<close> the candidate is
  \<open>(4/3, 4/3)\<close> and the step is \<open>3/8\<close>; the iterate minus the inverse Jacobian times
  \<open>(f, g)\<close> would be \<open>(17/12, 17/12)\<close>, towards \<open>sqrt 2\<close>. The source goes from \<open>4/3\<close> to
  \<open>5/4\<close>, the other way, and after the three iterations \<^verbatim>\<open>findEquilibria\<close> returns
  \<open>(2347/3440, 2347/3440)\<close>, about \<open>0.68\<close>.
\<close>

theorem newtonPolish_wrong_direction:
  "newtonLoop (Suc 0) parabola_system (Fin (3 / 8)) (Fin (3 / 8)) (Fin (4 / 3)) (Fin (4 / 3)) =
     \<lparr>vx = Fin (5 / 4), vy = Fin (5 / 4)\<rparr> \<and>
   newtonPolish parabola_system \<lparr>vx = Fin (4 / 3), vy = Fin (4 / 3)\<rparr> (Fin (3 / 8)) =
     \<lparr>vx = Fin (2347 / 3440), vy = Fin (2347 / 3440)\<rparr> \<and>
   findEquilibria square8 parabola_system (Some 8) =
     [\<lparr>vx = Fin (2347 / 3440), vy = Fin (2347 / 3440)\<rparr>]"
proof -
  have "newtonLoop (Suc 0) parabola_system (Fin (3 / 8)) (Fin (3 / 8)) (Fin (4 / 3)) (Fin (4 / 3)) =
     \<lparr>vx = Fin (5 / 4), vy = Fin (5 / 4)\<rparr>"
    by (simp add: parabola_system_def Let_def minus_number_def hypot_less del: hypot.simps)
  then show ?thesis
    using newton_example findEquilibria_parabola by simp
qed

end
